theory Spec2Isabelle
  imports Main "HOL-Library.Word"
begin

section \<open>Strings as Python handles them\<close>

text \<open>
  Python strings are modelled as \<^typ>\<open>string\<close>. Only the ASCII behaviour of
  \<^verbatim>\<open>str.lower\<close> and \<^verbatim>\<open>str.strip\<close> is modelled: the format tokens and
  extensions the converter compares are ASCII.
\<close>

definition upper_letters :: string where
  "upper_letters = ''ABCDEFGHIJKLMNOPQRSTUVWXYZ''"

definition lower_letters :: string where
  "lower_letters = ''abcdefghijklmnopqrstuvwxyz''"

definition lower_char :: "char \<Rightarrow> char" where
  "lower_char c = (case map_of (zip upper_letters lower_letters) c of None \<Rightarrow> c | Some d \<Rightarrow> d)"

definition lower :: "string \<Rightarrow> string" where
  "lower s = map lower_char s"

text \<open>\<^verbatim>\<open>s.lstrip('.')\<close>: every leading dot is removed.\<close>

definition lstrip_dot :: "string \<Rightarrow> string" where
  "lstrip_dot s = dropWhile (\<lambda>c. c = CHR ''.'') s"

text \<open>\<^verbatim>\<open>s.rfind(c)\<close>: the index of the last occurrence, \<open>None\<close> for Python's \<open>-1\<close>.\<close>

fun rfind :: "char \<Rightarrow> string \<Rightarrow> nat option" where
  "rfind c [] = None"
| "rfind c (x # xs) =
     (case rfind c xs of
        Some i \<Rightarrow> Some (Suc i)
      | None \<Rightarrow> (if x = c then Some 0 else None))"

text \<open>\<^verbatim>\<open>s.split(c)\<close> for a one-character separator.\<close>

fun split_on :: "char \<Rightarrow> string \<Rightarrow> string list" where
  "split_on c [] = [[]]"
| "split_on c (x # xs) =
     (if x = c then [] # split_on c xs
      else (case split_on c xs of
              [] \<Rightarrow> [[x]]
            | w # ws \<Rightarrow> (x # w) # ws))"

text \<open>
  ASCII white space as \<^verbatim>\<open>str.strip()\<close> sees it: tab, line feed, vertical tab, form
  feed, carriage return, the four separators 0x1C to 0x1F, and the space.
\<close>

definition is_space :: "char \<Rightarrow> bool" where
  "is_space c = (c \<in> set [CHR 0x09, CHR 0x0A, CHR 0x0B, CHR 0x0C, CHR 0x0D,
                           CHR 0x1C, CHR 0x1D, CHR 0x1E, CHR 0x1F, CHR 0x20])"

definition strip :: "string \<Rightarrow> string" where
  "strip s = rev (dropWhile is_space (rev (dropWhile is_space s)))"

text \<open>\<^verbatim>\<open>sep.join(xs)\<close>.\<close>

fun join :: "string \<Rightarrow> string list \<Rightarrow> string" where
  "join sep [] = []"
| "join sep [x] = x"
| "join sep (x # y # ys) = x @ sep @ join sep (y # ys)"

section \<open>Pure paths (pathlib, POSIX flavour)\<close>

text \<open>
  A path is what \<^verbatim>\<open>pathlib.PurePosixPath\<close> keeps after parsing: the root
  (\<open>''''\<close>, \<open>''/''\<close> or \<open>''//''\<close>) and the list of components, with empty
  components and \<open>.\<close> dropped. The path with no root and no component prints as
  \<open>.\<close>, the current directory. The functions follow pathlib of Python 3.7 to 3.11, the
  versions \<^verbatim>\<open>setup.py\<close> names.
\<close>

record path =
  root :: string
  names :: "string list"

definition splitroot :: "string \<Rightarrow> string \<times> string" where
  "splitroot s =
     (if s \<noteq> [] \<and> hd s = CHR ''/'' then
        (let stripped = dropWhile (\<lambda>c. c = CHR ''/'') s in
           (if length s - length stripped = 2 then ''//'' else ''/'', stripped))
      else ('''', s))"

definition Path :: "string \<Rightarrow> path" where
  "Path s =
     (let (r, rel) = splitroot s in
        \<lparr>root = r, names = filter (\<lambda>x. x \<noteq> [] \<and> x \<noteq> ''.'') (split_on CHR ''/'' rel)\<rparr>)"

text \<open>\<^verbatim>\<open>p / s\<close> for a string \<open>s\<close>: an absolute right operand replaces the left one.\<close>

definition joinpath :: "path \<Rightarrow> string \<Rightarrow> path" where
  "joinpath p s =
     (let q = Path s in
        if root q \<noteq> [] then q else \<lparr>root = root p, names = names p @ names q\<rparr>)"

definition name :: "path \<Rightarrow> string" where
  "name p = (if names p = [] then [] else last (names p))"

definition suffix :: "path \<Rightarrow> string" where
  "suffix p =
     (let n = name p in
        case rfind CHR ''.'' n of
          None \<Rightarrow> []
        | Some i \<Rightarrow> (if 0 < i \<and> Suc i < length n then drop i n else []))"

definition stem :: "path \<Rightarrow> string" where
  "stem p =
     (let n = name p in
        case rfind CHR ''.'' n of
          None \<Rightarrow> n
        | Some i \<Rightarrow> (if 0 < i \<and> Suc i < length n then take i n else n))"

definition parent :: "path \<Rightarrow> path" where
  "parent p = \<lparr>root = root p, names = butlast (names p)\<rparr>"

datatype error =
    UnsupportedFormat
  | SameFormat
  | PairNotSupported
  | ConversionFailed
  | ValueError
  | OSError

text \<open>
  \<^verbatim>\<open>p.with_suffix(s)\<close> raises \<^verbatim>\<open>ValueError\<close> for a suffix holding a separator, a
  non-empty suffix that does not start with a dot, the suffix \<open>.\<close>, and a path with an
  empty name.
\<close>

definition with_suffix :: "path \<Rightarrow> string \<Rightarrow> error + path" where
  "with_suffix p s =
     (if CHR ''/'' \<in> set s then Inl ValueError
      else if (s \<noteq> [] \<and> hd s \<noteq> CHR ''.'') \<or> s = ''.'' then Inl ValueError
      else if name p = [] then Inl ValueError
      else Inr \<lparr>root = root p, names = butlast (names p) @ [stem p @ s]\<rparr>)"

section \<open>The dispatcher (converter.py)\<close>

definition supported_formats :: "string set" where
  "supported_formats = {''jpg'', ''jpeg'', ''png'', ''gif'', ''bmp'', ''ico'', ''webp'', ''tiff''}"

text \<open>Every entry of the table is bound to the same method, \<^verbatim>\<open>_image_to_image\<close>.\<close>

datatype routine = Image_to_image

definition methods :: "((string \<times> string) \<times> routine) list" where
  "methods =
     [((''jpg'', ''png''), Image_to_image),
      ((''jpeg'', ''png''), Image_to_image),
      ((''gif'', ''png''), Image_to_image),
      ((''bmp'', ''png''), Image_to_image),
      ((''ico'', ''png''), Image_to_image),
      ((''webp'', ''png''), Image_to_image),
      ((''tiff'', ''png''), Image_to_image),

      ((''png'', ''jpg''), Image_to_image),
      ((''png'', ''jpeg''), Image_to_image),
      ((''png'', ''gif''), Image_to_image),
      ((''png'', ''bmp''), Image_to_image),
      ((''png'', ''ico''), Image_to_image),
      ((''png'', ''webp''), Image_to_image),
      ((''png'', ''tiff''), Image_to_image),

      ((''jpg'', ''gif''), Image_to_image),
      ((''jpeg'', ''gif''), Image_to_image),
      ((''gif'', ''jpg''), Image_to_image),
      ((''gif'', ''jpeg''), Image_to_image),
      ((''gif'', ''bmp''), Image_to_image),
      ((''gif'', ''ico''), Image_to_image),
      ((''gif'', ''webp''), Image_to_image),
      ((''gif'', ''tiff''), Image_to_image),

      ((''bmp'', ''jpg''), Image_to_image),
      ((''bmp'', ''jpeg''), Image_to_image),
      ((''bmp'', ''gif''), Image_to_image),
      ((''bmp'', ''ico''), Image_to_image),
      ((''bmp'', ''webp''), Image_to_image),
      ((''bmp'', ''tiff''), Image_to_image),

      ((''ico'', ''jpg''), Image_to_image),
      ((''ico'', ''jpeg''), Image_to_image),
      ((''ico'', ''gif''), Image_to_image),
      ((''ico'', ''bmp''), Image_to_image),
      ((''ico'', ''webp''), Image_to_image),
      ((''ico'', ''tiff''), Image_to_image),

      ((''webp'', ''jpg''), Image_to_image),
      ((''webp'', ''jpeg''), Image_to_image),
      ((''webp'', ''gif''), Image_to_image),
      ((''webp'', ''bmp''), Image_to_image),
      ((''webp'', ''ico''), Image_to_image),
      ((''webp'', ''tiff''), Image_to_image),

      ((''tiff'', ''jpg''), Image_to_image),
      ((''tiff'', ''jpeg''), Image_to_image),
      ((''tiff'', ''gif''), Image_to_image),
      ((''tiff'', ''bmp''), Image_to_image),
      ((''tiff'', ''ico''), Image_to_image),
      ((''tiff'', ''webp''), Image_to_image)]"

text \<open>\<^verbatim>\<open>methods.get((input_format, output_format))\<close>; no key occurs twice in the table.\<close>

definition get_conversion_method :: "string \<Rightarrow> string \<Rightarrow> routine option" where
  "get_conversion_method input_format output_format = map_of methods (input_format, output_format)"

section \<open>The file system\<close>

text \<open>
  A file system maps a path to what is stored there. The root and the current directory
  (the paths with no component) always exist and are directories. Paths are compared as
  pathlib values: symbolic links, \<open>..\<close> and permissions are not modelled, and a file
  system is meant to be a tree (the parent of every entry is a directory).
\<close>

datatype node = Dir | File string

type_synonym fs = "path \<Rightarrow> node option"

datatype errno = ENOENT | ENOTDIR | EEXIST

definition node_at :: "fs \<Rightarrow> path \<Rightarrow> node option" where
  "node_at fs p = (if names p = [] then Some Dir else fs p)"

definition path_exists :: "fs \<Rightarrow> path \<Rightarrow> bool" where
  "path_exists fs p = (case node_at fs p of None \<Rightarrow> False | Some n \<Rightarrow> True)"

definition is_file :: "fs \<Rightarrow> path \<Rightarrow> bool" where
  "is_file fs p = (case node_at fs p of Some (File b) \<Rightarrow> True | _ \<Rightarrow> False)"

definition is_dir :: "fs \<Rightarrow> path \<Rightarrow> bool" where
  "is_dir fs p = (case node_at fs p of Some Dir \<Rightarrow> True | _ \<Rightarrow> False)"

text \<open>\<^verbatim>\<open>os.mkdir(p)\<close>: the parent must be a directory and \<open>p\<close> must not exist.\<close>

definition os_mkdir :: "fs \<Rightarrow> path \<Rightarrow> errno + fs" where
  "os_mkdir fs p =
     (case node_at fs (parent p) of
        None \<Rightarrow> Inl ENOENT
      | Some (File b) \<Rightarrow> Inl ENOTDIR
      | Some Dir \<Rightarrow>
          (case node_at fs p of
             Some n \<Rightarrow> Inl EEXIST
           | None \<Rightarrow> Inr (fs(p \<mapsto> Dir))))"

text \<open>
  \<^verbatim>\<open>p.mkdir(parents=False, exist_ok=True)\<close>: \<^verbatim>\<open>FileNotFoundError\<close> is raised again,
  any other \<^verbatim>\<open>OSError\<close> is ignored when \<open>p\<close> is a directory.
\<close>

definition mkdir_exist_ok :: "fs \<Rightarrow> path \<Rightarrow> errno + fs" where
  "mkdir_exist_ok fs p =
     (case os_mkdir fs p of
        Inr fs' \<Rightarrow> Inr fs'
      | Inl e \<Rightarrow>
          (if e = ENOENT then Inl e
           else if is_dir fs p then Inr fs
           else Inl e))"

text \<open>
  \<^verbatim>\<open>p.mkdir(parents=True, exist_ok=True)\<close>, as pathlib writes it: on
  \<^verbatim>\<open>FileNotFoundError\<close> the parent is made first, then \<open>p\<close>.
\<close>

function mkdir_parents :: "fs \<Rightarrow> path \<Rightarrow> errno + fs" where
  "mkdir_parents fs p =
     (case os_mkdir fs p of
        Inr fs' \<Rightarrow> Inr fs'
      | Inl e \<Rightarrow>
          (if e = ENOENT then
             (if parent p = p then Inl e
              else (case mkdir_parents fs (parent p) of
                      Inl e' \<Rightarrow> Inl e'
                    | Inr fs1 \<Rightarrow> mkdir_exist_ok fs1 p))
           else if is_dir fs p then Inr fs
           else Inl e))"
  by pat_completeness auto
termination
proof (relation "measure (\<lambda>(fs, p). length (names p))")
  show "wf (measure (\<lambda>(fs, p). length (names p)))"
    by simp
next
  fix fs :: fs and p :: path and e :: errno
  assume "parent p \<noteq> p"
  then have "names p \<noteq> []"
    by (auto simp: parent_def)
  then show "((fs, parent p), (fs, p)) \<in> measure (\<lambda>(fs, p). length (names p))"
    by (simp add: parent_def)
qed

declare mkdir_parents.simps [simp del]

text \<open>
  Writing a file (\<^verbatim>\<open>open(p, 'w+b')\<close> and the write): \<open>p\<close> must not be a directory and
  its parent must be one. Opening alone is writing nothing: the file is made, or emptied
  when it exists.
\<close>

definition write_file :: "fs \<Rightarrow> path \<Rightarrow> string \<Rightarrow> fs option" where
  "write_file fs p bytes =
     (if is_dir fs p then None
      else if is_dir fs (parent p) then Some (fs(p \<mapsto> File bytes))
      else None)"

text \<open>
  The file systems the program meets are trees: the parent of every entry is a
  directory.
\<close>

definition tree :: "fs \<Rightarrow> bool" where
  "tree fs = (\<forall>p. names p \<noteq> [] \<and> fs p \<noteq> None \<longrightarrow> is_dir fs (parent p))"

section \<open>Images and the imaging library (Pillow)\<close>

text \<open>
  An image has a mode, its pixel dimensions and, for each coordinate, the values of its
  bands (four for \<open>RGBA\<close>, two for \<open>LA\<close>, three for \<open>RGB\<close>, one for \<open>L\<close>).
\<close>

record image =
  mode :: string
  dims :: "nat \<times> nat"
  pixel :: "nat \<times> nat \<Rightarrow> 8 word list"

datatype resampling = NEAREST | BILINEAR | BICUBIC | LANCZOS

text \<open>
  The codecs and the resampling kernel are the library's: they are parameters of the
  model. \<open>decode\<close> stands for \<^verbatim>\<open>Image.open\<close> with the loading of the pixel data
  (\<open>None\<close> when Pillow raises), \<open>encode\<close> for the encoder that \<^verbatim>\<open>img.save\<close> selects
  by the lower-cased extension of the file name, with \<^verbatim>\<open>optimize=True, quality=95\<close>
  (\<open>None\<close> for an unknown extension or a mode the format cannot store), \<open>resample\<close>
  for the pixels of a resized copy.

  Three more parameters say what a save that fails leaves behind. \<open>registered\<close> tells
  whether Pillow has an encoder for an extension: when it has none, \<^verbatim>\<open>img.save\<close>
  raises before it opens the file. When it has one, the file is opened for writing first
  and the encoder runs on the open file: \<open>partial_output\<close> is what the encoder had
  written when it raised (nothing, when it refuses the mode at once), and
  \<open>removes_created\<close> tells whether the library then removes a file that this call had
  created (recent versions of Pillow do, earlier ones leave it). A file that existed
  before the call is never removed: it is left with the partial output.
\<close>

record imaging =
  decode :: "string \<Rightarrow> image option"
  encode :: "string \<Rightarrow> image \<Rightarrow> string option"
  resample :: "resampling \<Rightarrow> image \<Rightarrow> nat \<times> nat \<Rightarrow> nat \<times> nat \<Rightarrow> 8 word list"
  registered :: "string \<Rightarrow> bool"
  partial_output :: "string \<Rightarrow> image \<Rightarrow> string"
  removes_created :: bool

text \<open>\<^verbatim>\<open>Image.new(mode, size, color)\<close>.\<close>

definition Image_new :: "string \<Rightarrow> nat \<times> nat \<Rightarrow> 8 word list \<Rightarrow> image" where
  "Image_new m sz colour = \<lparr>mode = m, dims = sz, pixel = (\<lambda>xy. colour)\<rparr>"

text \<open>\<^verbatim>\<open>img.split()[-1]\<close>: the last band, as an image of mode \<open>L\<close>.\<close>

definition split_last :: "image \<Rightarrow> image" where
  "split_last img =
     \<lparr>mode = ''L'', dims = dims img,
      pixel = (\<lambda>xy. case pixel img xy of [] \<Rightarrow> [] | b # bs \<Rightarrow> [last (b # bs)])\<rparr>"

text \<open>
  Pillow's 8-bit blend of an old value \<open>in1\<close> and a new value \<open>in2\<close> under a mask value \<open>m\<close>:
  \<open>(in1 * (255 - m) + in2 * m) / 255\<close>, rounded with shifts.
\<close>

definition div255 :: "nat \<Rightarrow> nat" where
  "div255 a = (let tmp = a + 128 in (tmp div 256 + tmp) div 256)"

definition blend8 :: "8 word \<Rightarrow> 8 word \<Rightarrow> 8 word \<Rightarrow> 8 word" where
  "blend8 m in1 in2 = of_nat (div255 (unat in1 * (255 - unat m) + unat in2 * unat m))"

text \<open>
  The colour bytes Pillow pastes from an image onto an \<open>RGB\<close> one: an \<open>LA\<close> image stores
  its luminance in all three colour bytes, an \<open>RGBA\<close> image its red, green and blue.
\<close>

definition colour_bytes :: "image \<Rightarrow> nat \<times> nat \<Rightarrow> 8 word list" where
  "colour_bytes im xy =
     (if mode im = ''LA'' then (case pixel im xy of [] \<Rightarrow> [] | l # bs \<Rightarrow> [l, l, l])
      else take 3 (pixel im xy))"

text \<open>
  \<^verbatim>\<open>background.paste(im, mask=mask)\<close> with no box: the region is the whole of \<open>im\<close>,
  placed at the origin; each colour byte inside is blended under the mask's value there.
  The converter calls it with three images of the same dimensions.
\<close>

definition paste :: "image \<Rightarrow> image \<Rightarrow> image \<Rightarrow> image" where
  "paste background im msk =
     \<lparr>mode = mode background, dims = dims background,
      pixel = (\<lambda>xy.
        if fst xy < fst (dims im) \<and> snd xy < snd (dims im) then
          (case pixel msk xy of
             [] \<Rightarrow> pixel background xy
           | a # as \<Rightarrow> map2 (blend8 a) (pixel background xy) (colour_bytes im xy))
        else pixel background xy)\<rparr>"

text \<open>\<^verbatim>\<open>img.resize(size, resample)\<close>: a copy of the requested size in the same mode.\<close>

definition resize :: "imaging \<Rightarrow> image \<Rightarrow> nat \<times> nat \<Rightarrow> resampling \<Rightarrow> image" where
  "resize lib img sz filt = \<lparr>mode = mode img, dims = sz, pixel = resample lib filt img sz\<rparr>"

definition Image_open :: "imaging \<Rightarrow> fs \<Rightarrow> path \<Rightarrow> image option" where
  "Image_open lib fs p =
     (case node_at fs p of
        Some (File bytes) \<Rightarrow> decode lib bytes
      | _ \<Rightarrow> None)"

text \<open>
  The extension \<^verbatim>\<open>os.path.splitext\<close> finds in a file name: from the last dot on, unless
  only dots stand before it.
\<close>

definition splitext_ext :: "string \<Rightarrow> string" where
  "splitext_ext n =
     (case rfind CHR ''.'' n of
        None \<Rightarrow> []
      | Some i \<Rightarrow> (if list_all (\<lambda>c. c = CHR ''.'') (take i n) then [] else drop i n))"

text \<open>
  \<^verbatim>\<open>img.save(p, optimize=True, quality=95)\<close>: whether it returned, and the file system
  it leaves. The format comes from the extension of \<open>p\<close> alone; an extension without an
  encoder raises at once. Otherwise Pillow notes whether the file exists, opens it with
  \<^verbatim>\<open>open(p, 'w+b')\<close>, which empties an existing file, and runs the encoder on it. When
  the encoder raises, the file holds what was written so far, unless the call had
  created it and the library removes it.
\<close>

definition Image_save :: "imaging \<Rightarrow> fs \<Rightarrow> path \<Rightarrow> image \<Rightarrow> bool \<times> fs" where
  "Image_save lib fs p img =
     (let ext = lower (splitext_ext (name p)) in
        if \<not> registered lib ext then (False, fs)
        else
          (let created = \<not> path_exists fs p in
             case write_file fs p [] of
               None \<Rightarrow> (False, fs)
             | Some fs0 \<Rightarrow>
                 (case encode lib ext img of
                    Some bytes \<Rightarrow> (True, fs0(p \<mapsto> File bytes))
                  | None \<Rightarrow>
                      (False,
                       if created \<and> removes_created lib then fs0(p := None)
                       else fs0(p \<mapsto> File (partial_output lib ext img))))))"

section \<open>The executor (converter.py)\<close>

text \<open>
  Lines 136 to 146 of \<^verbatim>\<open>_image_to_image\<close>: what is done to the decoded image before
  it is saved.
\<close>

definition normalise :: "imaging \<Rightarrow> path \<Rightarrow> image \<Rightarrow> image" where
  "normalise lib output_path img =
     (if lower (suffix output_path) \<in> set [''.jpg'', ''.jpeg''] \<and> mode img \<in> set [''RGBA'', ''LA''] then
        (let background = Image_new ''RGB'' (dims img) [255, 255, 255] in
           paste background img (split_last img))
      else if lower (suffix output_path) = ''.ico'' then
        resize lib img (256, 256) LANCZOS
      else img)"

text \<open>
  \<^verbatim>\<open>_image_to_image\<close>: every exception inside is raised again as a
  \<^verbatim>\<open>ConversionError\<close>. The result is the file system left by a call that returns,
  or the error raised together with the file system left by the call that raised it.
\<close>

definition image_to_image :: "imaging \<Rightarrow> fs \<Rightarrow> path \<Rightarrow> path \<Rightarrow> (error \<times> fs) + fs" where
  "image_to_image lib fs input_path output_path =
     (case Image_open lib fs input_path of
        None \<Rightarrow> Inl (ConversionFailed, fs)
      | Some img \<Rightarrow>
          (case Image_save lib fs output_path (normalise lib output_path img) of
             (saved, fs') \<Rightarrow> (if saved then Inr fs' else Inl (ConversionFailed, fs'))))"

fun run_routine :: "routine \<Rightarrow> imaging \<Rightarrow> fs \<Rightarrow> path \<Rightarrow> path \<Rightarrow> (error \<times> fs) + fs" where
  "run_routine Image_to_image lib fs input_path output_path =
     image_to_image lib fs input_path output_path"

text \<open>
  Lines 51 to 57 of \<^verbatim>\<open>convert\<close>. A pathlib path is always true as a condition, so
  \<^verbatim>\<open>if output_dir:\<close> asks whether one was given.
\<close>

definition resolve_output :: "fs \<Rightarrow> path \<Rightarrow> string \<Rightarrow> path option \<Rightarrow> error + path" where
  "resolve_output fs input_path output_format output_dir =
     (case output_dir of
        Some d \<Rightarrow>
          (if is_file fs d then Inr d
           else Inr (joinpath d (stem input_path @ ''.'' @ output_format)))
      | None \<Rightarrow> with_suffix input_path (''.'' @ output_format))"

text \<open>
  \<^verbatim>\<open>convert\<close> returns the outcome (the output path, or the exception raised) and the
  file system it leaves.
\<close>

definition convert :: "imaging \<Rightarrow> fs \<Rightarrow> path \<Rightarrow> string \<Rightarrow> path option \<Rightarrow> (error + path) \<times> fs" where
  "convert lib fs input_path output_format output_dir =
     (if lower output_format \<notin> supported_formats then (Inl UnsupportedFormat, fs)
      else
        (let input_ext = lstrip_dot (lower (suffix input_path)) in
           if input_ext = lower output_format then (Inl SameFormat, fs)
           else
             (case resolve_output fs input_path output_format output_dir of
                Inl e \<Rightarrow> (Inl e, fs)
              | Inr output_path \<Rightarrow>
                  (case mkdir_parents fs (parent output_path) of
                     Inl e \<Rightarrow> (Inl OSError, fs)
                   | Inr fs1 \<Rightarrow>
                       (case get_conversion_method input_ext (lower output_format) of
                          None \<Rightarrow> (Inl PairNotSupported, fs1)
                        | Some conversion_method \<Rightarrow>
                            (case run_routine conversion_method lib fs1 input_path output_path of
                               Inl (e, fs2) \<Rightarrow> (Inl e, fs2)
                             | Inr fs2 \<Rightarrow> (Inr output_path, fs2)))))))"

section \<open>The command line (main.py)\<close>

text \<open>
  The namespace \<^verbatim>\<open>parse_args\<close> returns. An option that was not given is \<open>None\<close>;
  \<^verbatim>\<open>--batch\<close> and \<^verbatim>\<open>--output\<close> are converted to paths by the parser
  (\<open>output_arg\<close> is \<^verbatim>\<open>args.output\<close>).
\<close>

record args =
  input_paths :: "string list option"
  batch :: "path option"
  output_format :: "string option"
  output_arg :: "path option"
  verbose :: bool

text \<open>Python's truth of a list or a string that may be \<^verbatim>\<open>None\<close>.\<close>

definition truthy :: "'a list option \<Rightarrow> bool" where
  "truthy v = (case v of None \<Rightarrow> False | Some l \<Rightarrow> l \<noteq> [])"

definition given :: "'a list option \<Rightarrow> 'a list" where
  "given v = (case v of None \<Rightarrow> [] | Some l \<Rightarrow> l)"

datatype arg_error =
    NoInput
  | FormatNeededForSeveral
  | FormatNeededForGlob
  | InputMissing path
  | BatchMissing path

definition validate_errors :: "fs \<Rightarrow> args \<Rightarrow> arg_error list" where
  "validate_errors fs a =
     (if \<not> truthy (input_paths a) \<and> batch a = None then [NoInput] else []) @
     (if truthy (input_paths a) \<and> 1 < length (given (input_paths a)) \<and> \<not> truthy (output_format a)
      then [FormatNeededForSeveral] else []) @
     (if truthy (input_paths a) \<and> CHR ''*'' \<in> set (join '' '' (given (input_paths a)))
         \<and> \<not> truthy (output_format a)
      then [FormatNeededForGlob] else []) @
     map InputMissing (filter (\<lambda>p. \<not> path_exists fs p) (map Path (given (input_paths a)))) @
     (case batch a of
        None \<Rightarrow> []
      | Some b \<Rightarrow> (if path_exists fs b then [] else [BatchMissing b]))"

definition validate_args :: "fs \<Rightarrow> args \<Rightarrow> bool" where
  "validate_args fs a = (validate_errors fs a = [])"

text \<open>
  Reading a text file line by line: \<^verbatim>\<open>\r\n\<close> and \<^verbatim>\<open>\r\<close> end a line as
  \<^verbatim>\<open>\n\<close> does (universal newlines), and a line keeps its terminator.
\<close>

fun universal_newlines :: "string \<Rightarrow> string" where
  "universal_newlines [] = []"
| "universal_newlines [x] = [if x = CHR 0x0D then CHR 0x0A else x]"
| "universal_newlines (x # y # ys) =
     (if x = CHR 0x0D \<and> y = CHR 0x0A then CHR 0x0A # universal_newlines ys
      else if x = CHR 0x0D then CHR 0x0A # universal_newlines (y # ys)
      else x # universal_newlines (y # ys))"

fun lines_of :: "string \<Rightarrow> string list" where
  "lines_of [] = []"
| "lines_of (x # xs) =
     (if x = CHR 0x0A then [x] # lines_of xs
      else (case lines_of xs of
              [] \<Rightarrow> [[x]]
            | l # ls \<Rightarrow> (x # l) # ls))"

text \<open>
  The listing of a directory and the expansion of a glob pattern are the operating
  system's and pathlib's (their order is not fixed): they are parameters of the model.
\<close>

record listing =
  glob :: "fs \<Rightarrow> path \<Rightarrow> string \<Rightarrow> path list"
  iterdir :: "fs \<Rightarrow> path \<Rightarrow> path list"

text \<open>
  \<^verbatim>\<open>get_input_files\<close>. Opening the batch file raises when it is not a regular file.
\<close>

definition files_of_input :: "listing \<Rightarrow> fs \<Rightarrow> string \<Rightarrow> path list" where
  "files_of_input os fs path_str =
     (let p = Path path_str in
        if is_file fs p then [p]
        else if CHR ''*'' \<in> set path_str then glob os fs (parent p) (name p)
        else if is_dir fs p then filter (is_file fs) (iterdir os fs p)
        else [])"

definition get_input_files :: "listing \<Rightarrow> fs \<Rightarrow> args \<Rightarrow> error + path list" where
  "get_input_files os fs a =
     (case batch a of
        Some b \<Rightarrow>
          (case node_at fs b of
             Some (File content) \<Rightarrow>
               Inr (filter (path_exists fs)
                      (map (\<lambda>line. Path (strip line)) (lines_of (universal_newlines content))))
           | _ \<Rightarrow> Inl OSError)
      | None \<Rightarrow>
          (if truthy (input_paths a)
           then Inr (concat (map (files_of_input os fs) (given (input_paths a))))
           else Inr []))"

text \<open>
  The loop of \<^verbatim>\<open>main\<close>, lines 181 to 193: \<open>success_count\<close> is the counter, the log
  holds one record per file (what the logger is given), the file system is threaded
  through the calls.
\<close>

type_synonym log = "(path \<times> (error + path)) list"

fun batch_loop ::
  "imaging \<Rightarrow> fs \<Rightarrow> path list \<Rightarrow> string \<Rightarrow> path option \<Rightarrow> nat \<Rightarrow> nat \<times> log \<times> fs" where
  "batch_loop lib fs [] fmt out success_count = (success_count, [], fs)"
| "batch_loop lib fs (input_file # rest) fmt out success_count =
     (case convert lib fs input_file fmt out of
        (Inr output_path, fs') \<Rightarrow>
          (case batch_loop lib fs' rest fmt out (success_count + 1) of
             (n, lg, fs'') \<Rightarrow> (n, (input_file, Inr output_path) # lg, fs''))
      | (Inl e, fs') \<Rightarrow>
          (case batch_loop lib fs' rest fmt out success_count of
             (n, lg, fs'') \<Rightarrow> (n, (input_file, Inl e) # lg, fs'')))"

text \<open>Lines 168 to 175: the format given, or the one read from the output path.\<close>

definition determine_format :: "args \<Rightarrow> path list \<Rightarrow> string option" where
  "determine_format a input_files =
     (if truthy (output_format a) then output_format a
      else (case output_arg a of
              Some out \<Rightarrow>
                (if length input_files = 1 then Some (lower (lstrip_dot (suffix out))) else None)
            | None \<Rightarrow> None))"

text \<open>
  What \<^verbatim>\<open>parser.parse_args()\<close> does for the parser of \<^verbatim>\<open>create_parser\<close>: it prints
  the version or the help and exits with status 0, it exits with status 2 on a usage
  error, or it returns a namespace.
\<close>

datatype cmdline = Version | Help | Usage_error | Parsed args

text \<open>
  A \<^verbatim>\<open>KeyboardInterrupt\<close> is not an \<^verbatim>\<open>Exception\<close>: the handler inside the loop
  (line 191) lets it pass, and it ends the loop. \<open>interrupt\<close> is the index of the input
  file whose conversion the interrupt arrives in, \<open>None\<close> when none arrives (an index
  beyond the last file names no conversion: the loop runs to its end). The loop is left
  with the records of the files before that one (\<open>Inl\<close>), or runs to its end
  (\<open>Inr\<close>). The interrupt is taken when the call of \<^verbatim>\<open>convert\<close> begins: what an
  interrupted call had already written is not modelled.
\<close>

definition loop_with_interrupt ::
  "imaging \<Rightarrow> fs \<Rightarrow> path list \<Rightarrow> string \<Rightarrow> path option \<Rightarrow> nat option
     \<Rightarrow> (log \<times> fs) + (nat \<times> log \<times> fs)" where
  "loop_with_interrupt lib fs input_files fmt out interrupt =
     (case interrupt of
        None \<Rightarrow> Inr (batch_loop lib fs input_files fmt out 0)
      | Some i \<Rightarrow>
          (if i < length input_files then
             (case batch_loop lib fs (take i input_files) fmt out 0 of
                (success_count, lg, fs') \<Rightarrow> Inl (lg, fs'))
           else Inr (batch_loop lib fs input_files fmt out 0)))"

text \<open>
  \<^verbatim>\<open>main\<close>: the exit status of the process, the log and the file system left. The
  validation of the arguments stands before the \<^verbatim>\<open>try\<close>; inside it, line 195 returns 0
  or 1 by the counter, and the handler of lines 197 to 199 returns 1 for a
  \<^verbatim>\<open>KeyboardInterrupt\<close>, whatever the counter holds.
\<close>

definition main :: "imaging \<Rightarrow> listing \<Rightarrow> fs \<Rightarrow> nat option \<Rightarrow> cmdline \<Rightarrow> int \<times> log \<times> fs" where
  "main lib os fs interrupt cl =
     (case cl of
        Version \<Rightarrow> (0, [], fs)
      | Help \<Rightarrow> (0, [], fs)
      | Usage_error \<Rightarrow> (2, [], fs)
      | Parsed a \<Rightarrow>
          (if \<not> validate_args fs a then (1, [], fs)
           else
             (case get_input_files os fs a of
                Inl e \<Rightarrow> (1, [], fs)
              | Inr input_files \<Rightarrow>
                  (if input_files = [] then (1, [], fs)
                   else
                     (case determine_format a input_files of
                        None \<Rightarrow> (1, [], fs)
                      | Some fmt \<Rightarrow>
                          (case loop_with_interrupt lib fs input_files fmt (output_arg a) interrupt of
                             Inl (lg, fs') \<Rightarrow> (1, lg, fs')
                           | Inr (success_count, lg, fs') \<Rightarrow>
                               (if 0 < success_count then 0 else 1, lg, fs')))))))"

section \<open>Example data\<close>

text \<open>
  A small instance of the library and of the file system, for the concrete runs below.
  Two contents are decodable: \<open>rgba\<close>, a 2 by 1 \<open>RGBA\<close> image whose left pixel is fully
  transparent and whose right pixel is opaque, and \<open>pal\<close>, a 1 by 1 palette image
  (mode \<open>P\<close>). The encoder knows six extensions and writes the extension and the mode of
  the image it is given; as Pillow's JPEG encoder does, it refuses a palette image for
  \<open>.jpg\<close> and \<open>.jpeg\<close>, having written nothing, and the library removes the file if
  the call had created it.
\<close>

definition example_image :: image where
  "example_image =
     \<lparr>mode = ''RGBA'', dims = (2, 1),
      pixel = (\<lambda>xy. if xy = (0, 0) then [10, 20, 30, 0] else [10, 20, 30, 255])\<rparr>"

definition palette_image :: image where
  "palette_image = \<lparr>mode = ''P'', dims = (1, 1), pixel = (\<lambda>xy. [7])\<rparr>"

definition example_lib :: imaging where
  "example_lib =
     \<lparr>decode = (\<lambda>bytes.
        if bytes = ''rgba'' then Some example_image
        else if bytes = ''pal'' then Some palette_image
        else None),
      encode = (\<lambda>ext img.
        if ext \<in> set [''.png'', ''.jpg'', ''.jpeg'', ''.gif'', ''.ico'', ''.bmp'']
           \<and> \<not> (mode img = ''P'' \<and> ext \<in> set [''.jpg'', ''.jpeg''])
        then Some (ext @ '' '' @ mode img) else None),
      resample = (\<lambda>filt img sz xy. pixel img (0, 0)),
      registered = (\<lambda>ext. ext \<in> set [''.png'', ''.jpg'', ''.jpeg'', ''.gif'', ''.ico'', ''.bmp'']),
      partial_output = (\<lambda>ext img. []),
      removes_created = True\<rparr>"

definition example_listing :: listing where
  "example_listing = \<lparr>glob = (\<lambda>fs p pattern. []), iterdir = (\<lambda>fs p. [])\<rparr>"

definition rel :: "string list \<Rightarrow> path" where
  "rel ns = \<lparr>root = [], names = ns\<rparr>"

text \<open>
  The example file system: two decodable images \<open>a.png\<close> and \<open>c.jpg\<close>, a corrupt
  \<open>b.png\<close>, an existing output file \<open>old.jpg\<close>, two images with the same stem,
  \<open>x.png\<close> and the palette image \<open>x.gif\<close>, and a batch list naming \<open>a.png\<close>, then
  an empty line, then a missing file.
\<close>

definition example_fs :: fs where
  "example_fs =
     [rel [''a.png''] \<mapsto> File ''rgba'',
      rel [''b.png''] \<mapsto> File ''junk'',
      rel [''c.jpg''] \<mapsto> File ''rgba'',
      rel [''old.jpg''] \<mapsto> File ''old'',
      rel [''x.png''] \<mapsto> File ''rgba'',
      rel [''x.gif''] \<mapsto> File ''pal'',
      rel [''list.txt''] \<mapsto> File (''a.png'' @ [CHR 0x0A, CHR 0x0A] @ ''missing.png'' @ [CHR 0x0A])]"

definition example_args :: args where
  "example_args =
     \<lparr>input_paths = None, batch = None, output_format = None, output_arg = None,
      verbose = False\<rparr>"

section \<open>Facts about strings and paths\<close>

lemma lower_char_dot [simp]: "lower_char c = CHR ''.'' \<longleftrightarrow> c = CHR ''.''"
  unfolding lower_char_def upper_letters_def lower_letters_def
  by simp

lemma lower_char_idem [simp]: "lower_char (lower_char c) = lower_char c"
  unfolding lower_char_def upper_letters_def lower_letters_def
  by simp

lemma lower_idem [simp]: "lower (lower s) = lower s"
  by (simp add: lower_def)

section \<open>The dispatch table\<close>

lemma no_identity_pair: "get_conversion_method x x = None"
  unfolding get_conversion_method_def methods_def by simp

text \<open>
  C1. The claim: for every ordered pair of distinct supported formats (\<open>jpg\<close> and
  \<open>jpeg\<close> counted as one), \<^verbatim>\<open>_get_conversion_method\<close> returns a routine. The table
  has no row from \<open>jpg\<close> or \<open>jpeg\<close> to \<open>bmp\<close>, \<open>ico\<close>, \<open>webp\<close> or \<open>tiff\<close>,
  although it has the opposite rows and every row of the other source formats: for the
  supported and distinct formats \<open>jpg\<close> and \<open>bmp\<close> the lookup returns nothing, while
  the lookup from \<open>bmp\<close> to \<open>jpg\<close> returns the routine.
\<close>

theorem dispatch_jpg_to_bmp_missing:
  "''jpg'' \<in> supported_formats \<and> ''bmp'' \<in> supported_formats
   \<and> get_conversion_method ''jpg'' ''bmp'' = None
   \<and> get_conversion_method ''bmp'' ''jpg'' = Some Image_to_image"
  unfolding get_conversion_method_def methods_def supported_formats_def by simp

section \<open>Creating directories\<close>

text \<open>Creating directories never touches an entry that exists: it only adds directories.\<close>

lemma os_mkdir_adds_dir:
  "os_mkdir fs p = Inr fs' \<Longrightarrow> fs' q = fs q \<or> (fs q = None \<and> fs' q = Some Dir)"
  by (auto simp: os_mkdir_def node_at_def split: option.splits node.splits if_splits)

lemma mkdir_exist_ok_adds_dir:
  "mkdir_exist_ok fs p = Inr fs' \<Longrightarrow> fs' q = fs q \<or> (fs q = None \<and> fs' q = Some Dir)"
  unfolding mkdir_exist_ok_def
  by (auto split: sum.splits if_splits dest: os_mkdir_adds_dir)

lemma mkdir_parents_adds_dir:
  "mkdir_parents fs p = Inr fs' \<Longrightarrow> fs' q = fs q \<or> (fs q = None \<and> fs' q = Some Dir)"
proof (induction fs p arbitrary: fs' rule: mkdir_parents.induct)
  case (1 fs p)
  note eq = mkdir_parents.simps [of fs p]
  show ?case
  proof (cases "os_mkdir fs p")
    case (Inr fs1)
    with "1.prems" eq have "fs' = fs1"
      by simp
    with Inr show ?thesis
      using os_mkdir_adds_dir by blast
  next
    case (Inl e)
    show ?thesis
    proof (cases "e = ENOENT")
      case False
      with Inl "1.prems" eq have "fs' = fs"
        by (simp split: if_splits)
      then show ?thesis by simp
    next
      case True
      with Inl "1.prems" eq have np: "parent p \<noteq> p"
        by (auto split: if_splits)
      from Inl True np eq have eq2:
        "mkdir_parents fs p =
           (case mkdir_parents fs (parent p) of Inl e' \<Rightarrow> Inl e' | Inr fs1 \<Rightarrow> mkdir_exist_ok fs1 p)"
        by simp
      with "1.prems" obtain fs1 where
        a: "mkdir_parents fs (parent p) = Inr fs1" and b: "mkdir_exist_ok fs1 p = Inr fs'"
        by (auto split: sum.splits)
      from "1.IH" [OF Inl True np a] have c: "fs1 q = fs q \<or> (fs q = None \<and> fs1 q = Some Dir)" .
      from mkdir_exist_ok_adds_dir [OF b, of q] c show ?thesis
        by auto
    qed
  qed
qed

section \<open>The output path\<close>

text \<open>
  C3. Whenever \<^verbatim>\<open>convert\<close> returns a path: with an output location that is an
  existing regular file, the path is that location; with an output location that is not
  one, it is the location joined with the stem of the input, a dot and the format as
  given; with no output location, it is the input path with its suffix replaced by a dot
  and the format as given (\<^verbatim>\<open>with_suffix\<close>: same root and directories, the last name
  is the stem, a dot and the format).
\<close>

theorem convert_output_path:
  assumes "convert lib fs input_path fmt out_dir = (Inr p, fs')"
  shows "(case out_dir of
            Some d \<Rightarrow>
              (if is_file fs d then p = d
               else p = joinpath d (stem input_path @ ''.'' @ fmt))
          | None \<Rightarrow>
              with_suffix input_path (''.'' @ fmt) = Inr p
              \<and> p = \<lparr>root = root input_path,
                      names = butlast (names input_path) @ [stem input_path @ ''.'' @ fmt]\<rparr>)"
  using assms
  unfolding convert_def resolve_output_def Let_def
  by (auto split: if_splits sum.splits option.splits simp: with_suffix_def)


theorem convert_output_path_witness:
  "fst (convert example_lib example_fs (rel [''a.png'']) ''jpg'' None) = Inr (rel [''a.jpg''])
   \<and> with_suffix (rel [''a.png'']) ''.jpg'' = Inr (rel [''a.jpg''])
   \<and> is_file example_fs (rel [''old.jpg''])
   \<and> fst (convert example_lib example_fs (rel [''a.png'']) ''jpg'' (Some (rel [''old.jpg''])))
       = Inr (rel [''old.jpg''])
   \<and> \<not> is_file example_fs (rel [''out''])
   \<and> fst (convert example_lib example_fs (rel [''a.png'']) ''jpg'' (Some (rel [''out''])))
       = Inr (joinpath (rel [''out'']) (stem (rel [''a.png'']) @ ''.'' @ ''jpg''))
   \<and> joinpath (rel [''out'']) (stem (rel [''a.png'']) @ ''.'' @ ''jpg'') = rel [''out'', ''a.jpg'']"
proof -
  let ?c1 = "convert example_lib example_fs (rel [''a.png'']) ''jpg'' None"
  let ?c2 = "convert example_lib example_fs (rel [''a.png'']) ''jpg'' (Some (rel [''old.jpg'']))"
  let ?c3 = "convert example_lib example_fs (rel [''a.png'']) ''jpg'' (Some (rel [''out'']))"
  have g1: "fst ?c1 = Inr (rel [''a.jpg''])"
    by code_simp
  have g2: "fst ?c2 = Inr (rel [''old.jpg''])"
    by code_simp
  have g3: "fst ?c3 = Inr (rel [''out'', ''a.jpg''])"
    by code_simp
  have e1: "?c1 = (Inr (rel [''a.jpg'']), snd ?c1)"
    using g1 by (simp add: prod_eq_iff)
  have e2: "?c2 = (Inr (rel [''old.jpg'']), snd ?c2)"
    using g2 by (simp add: prod_eq_iff)
  have e3: "?c3 = (Inr (rel [''out'', ''a.jpg'']), snd ?c3)"
    using g3 by (simp add: prod_eq_iff)
  have f2: "is_file example_fs (rel [''old.jpg''])"
    by code_simp
  have f3: "\<not> is_file example_fs (rel [''out''])"
    by code_simp
  from convert_output_path [OF e1] convert_output_path [OF e2] convert_output_path [OF e3]
    g1 g2 g3 f2 f3
  show ?thesis
    by simp
qed


section \<open>Rejections and their side effects\<close>

text \<open>
  C2. The claim: \<^verbatim>\<open>convert\<close> raises its rejections before any side effect on the
  file system, and creates no output directory when the pair has no registered routine.
  The two checks of lines 42 to 48 do come first, but the parent directory of the output
  path is made on line 60, before the pair is looked up on line 63. Converting \<open>c.jpg\<close>
  to \<open>bmp\<close>, a pair of supported and different formats with no routine, into the
  missing directory \<open>out\<close> raises the pair's error and leaves \<open>out\<close> created.
\<close>

theorem unregistered_pair_creates_directory:
  "lower ''bmp'' \<in> supported_formats
   \<and> lstrip_dot (lower (suffix (rel [''c.jpg'']))) \<noteq> lower ''bmp''
   \<and> get_conversion_method (lstrip_dot (lower (suffix (rel [''c.jpg''])))) (lower ''bmp'') = None
   \<and> fst (convert example_lib example_fs (rel [''c.jpg'']) ''bmp'' (Some (rel [''out''])))
       = Inl PairNotSupported
   \<and> example_fs (rel [''out'']) = None
   \<and> snd (convert example_lib example_fs (rel [''c.jpg'']) ''bmp'' (Some (rel [''out''])))
         (rel [''out'']) = Some Dir"
  by code_simp

text \<open>
  What does hold of the rejections. An unsupported output format and an input format
  equal to the output format are rejected with the file system untouched. A pair with no
  registered routine is rejected too, never converted, but only after the output path is
  resolved and its parent directories are made: the call ends in the \<^verbatim>\<open>ValueError\<close>
  of \<^verbatim>\<open>with_suffix\<close> or in the error of \<^verbatim>\<open>mkdir\<close> with the file system
  untouched, or in the pair's error with the file system that \<^verbatim>\<open>mkdir\<close> left. In every
  case each entry that existed is unchanged and whatever is new is a directory: no file
  is written.
\<close>

theorem convert_rejections:
  "(lower fmt \<notin> supported_formats \<longrightarrow>
      convert lib fs input_path fmt out_dir = (Inl UnsupportedFormat, fs))
   \<and> (lower fmt \<in> supported_formats \<and> lstrip_dot (lower (suffix input_path)) = lower fmt \<longrightarrow>
      convert lib fs input_path fmt out_dir = (Inl SameFormat, fs))
   \<and> (lower fmt \<in> supported_formats \<and> lstrip_dot (lower (suffix input_path)) \<noteq> lower fmt
      \<and> get_conversion_method (lstrip_dot (lower (suffix input_path))) (lower fmt) = None \<longrightarrow>
      (\<exists>e fs'. convert lib fs input_path fmt out_dir = (Inl e, fs')
         \<and> e \<in> {ValueError, OSError, PairNotSupported}
         \<and> (e \<noteq> PairNotSupported \<longrightarrow> fs' = fs)
         \<and> (e = PairNotSupported \<longrightarrow>
              (\<exists>output_path. resolve_output fs input_path fmt out_dir = Inr output_path
                 \<and> mkdir_parents fs (parent output_path) = Inr fs'))
         \<and> (\<forall>q. fs' q = fs q \<or> (fs q = None \<and> fs' q = Some Dir))))"
proof (intro conjI impI)
  assume "lower fmt \<notin> supported_formats"
  then show "convert lib fs input_path fmt out_dir = (Inl UnsupportedFormat, fs)"
    by (simp add: convert_def)
next
  assume "lower fmt \<in> supported_formats \<and> lstrip_dot (lower (suffix input_path)) = lower fmt"
  then show "convert lib fs input_path fmt out_dir = (Inl SameFormat, fs)"
    by (simp add: convert_def)
next
  assume a: "lower fmt \<in> supported_formats \<and> lstrip_dot (lower (suffix input_path)) \<noteq> lower fmt
      \<and> get_conversion_method (lstrip_dot (lower (suffix input_path))) (lower fmt) = None"
  show "\<exists>e fs'. convert lib fs input_path fmt out_dir = (Inl e, fs')
         \<and> e \<in> {ValueError, OSError, PairNotSupported}
         \<and> (e \<noteq> PairNotSupported \<longrightarrow> fs' = fs)
         \<and> (e = PairNotSupported \<longrightarrow>
              (\<exists>output_path. resolve_output fs input_path fmt out_dir = Inr output_path
                 \<and> mkdir_parents fs (parent output_path) = Inr fs'))
         \<and> (\<forall>q. fs' q = fs q \<or> (fs q = None \<and> fs' q = Some Dir))"
  proof (cases "resolve_output fs input_path fmt out_dir")
    case (Inl e)
    then have "e = ValueError"
      by (auto simp: resolve_output_def with_suffix_def split: option.splits if_splits)
    with Inl a show ?thesis
      by (simp add: convert_def)
  next
    case (Inr output_path)
    show ?thesis
    proof (cases "mkdir_parents fs (parent output_path)")
      case (Inl e)
      with Inr a show ?thesis
        by (simp add: convert_def)
    next
      case mk: (Inr fs1)
      from mkdir_parents_adds_dir [OF mk]
      have "\<forall>q. fs1 q = fs q \<or> (fs q = None \<and> fs1 q = Some Dir)"
        by blast
      with Inr mk a show ?thesis
        by (simp add: convert_def)
    qed
  qed
qed

theorem convert_rejections_witness:
  "lower ''svg'' \<notin> supported_formats
   \<and> convert example_lib example_fs (rel [''a.png'']) ''svg'' None = (Inl UnsupportedFormat, example_fs)
   \<and> lower ''PNG'' \<in> supported_formats
   \<and> lstrip_dot (lower (suffix (rel [''a.png'']))) = lower ''PNG''
   \<and> convert example_lib example_fs (rel [''a.png'']) ''PNG'' None = (Inl SameFormat, example_fs)
   \<and> lower ''bmp'' \<in> supported_formats
   \<and> lstrip_dot (lower (suffix (rel [''c.jpg'']))) \<noteq> lower ''bmp''
   \<and> get_conversion_method (lstrip_dot (lower (suffix (rel [''c.jpg''])))) (lower ''bmp'') = None
   \<and> fst (convert example_lib example_fs (rel [''c.jpg'']) ''bmp'' (Some (rel [''out'']))) = Inl PairNotSupported
   \<and> snd (convert example_lib example_fs (rel [''c.jpg'']) ''bmp'' (Some (rel [''out'']))) (rel [''a.png''])
       = example_fs (rel [''a.png''])"
proof -
  have h1: "lower ''svg'' \<notin> supported_formats"
    by code_simp
  have h2: "lower ''PNG'' \<in> supported_formats \<and> lstrip_dot (lower (suffix (rel [''a.png'']))) = lower ''PNG''"
    by code_simp
  have h3: "lower ''bmp'' \<in> supported_formats
      \<and> lstrip_dot (lower (suffix (rel [''c.jpg'']))) \<noteq> lower ''bmp''
      \<and> get_conversion_method (lstrip_dot (lower (suffix (rel [''c.jpg''])))) (lower ''bmp'') = None"
    by code_simp
  have g: "fst (convert example_lib example_fs (rel [''c.jpg'']) ''bmp'' (Some (rel [''out'']))) = Inl PairNotSupported"
    by code_simp
  have k: "example_fs (rel [''a.png'']) \<noteq> None"
    by code_simp
  note r1 = convert_rejections [of "''svg''" example_lib example_fs "rel [''a.png'']" None]
  note r2 = convert_rejections [of "''PNG''" example_lib example_fs "rel [''a.png'']" None]
  note r3 = convert_rejections [of "''bmp''" example_lib example_fs "rel [''c.jpg'']" "Some (rel [''out''])"]
  from r3 h3 obtain e fs' where
    c: "convert example_lib example_fs (rel [''c.jpg'']) ''bmp'' (Some (rel [''out''])) = (Inl e, fs')"
    and d: "\<forall>q. fs' q = example_fs q \<or> (example_fs q = None \<and> fs' q = Some Dir)"
    by blast
  from spec [OF d, of "rel [''a.png'']"] k
  have "fs' (rel [''a.png'']) = example_fs (rel [''a.png''])"
    by (elim disjE conjE) simp_all
  with c have "snd (convert example_lib example_fs (rel [''c.jpg'']) ''bmp'' (Some (rel [''out'']))) (rel [''a.png''])
       = example_fs (rel [''a.png''])"
    by simp
  with r1 r2 h1 h2 h3 g show ?thesis
    by simp
qed


section \<open>What is done to the image\<close>

text \<open>The blend keeps the old value under mask value 0 and takes the new one under 255.\<close>

lemma div255_full: "i \<le> 255 \<Longrightarrow> div255 (i * 255) = i"
  unfolding div255_def Let_def by (cases "i \<le> 128") auto

lemma blend8_transparent: "blend8 0 old new = old"
proof -
  have "unat old \<le> 255"
    using unsigned_less [of old, where 'a = nat] by simp
  then show ?thesis
    by (simp add: blend8_def div255_full)
qed

lemma blend8_opaque: "blend8 255 old new = new"
proof -
  have "unat new \<le> 255"
    using unsigned_less [of new, where 'a = nat] by simp
  then show ?thesis
    by (simp add: blend8_def div255_full)
qed


text \<open>
  When \<^verbatim>\<open>_image_to_image\<close> succeeds, the normalised image was encoded for the
  extension of the output path and the result written there.
\<close>

lemma image_to_image_written:
  assumes "Image_open lib fs input_path = Some img"
    and "image_to_image lib fs input_path output_path = Inr fs'"
  shows "\<exists>bytes.
           encode lib (lower (splitext_ext (name output_path))) (normalise lib output_path img) = Some bytes
           \<and> fs' = fs(output_path \<mapsto> File bytes)"
  using assms
  unfolding image_to_image_def Image_save_def write_file_def Let_def
  by (auto split: option.splits if_splits prod.splits)

lemma example_open: "Image_open example_lib example_fs (rel [''a.png'']) = Some example_image"
  by (simp add: Image_open_def node_at_def example_fs_def example_lib_def rel_def)

text \<open>
  C4. When the suffix of the output path is \<open>.jpg\<close> or \<open>.jpeg\<close> (in any case) and the
  decoded image has mode \<open>RGBA\<close> or \<open>LA\<close>, the image given to the encoder is the
  decoded image pasted onto a new \<open>RGB\<close> image of the same dimensions filled with
  (255, 255, 255), under its own last band as the mask: it has mode \<open>RGB\<close>, the same
  dimensions, each pixel inside is the blend of white and the pixel's colour under the
  pixel's alpha, so a fully transparent pixel becomes (255, 255, 255) and an opaque one
  keeps its colour. The property is about the image the encoder receives; what the lossy
  encoder makes of it is the library's.
\<close>

theorem jpeg_alpha_composite:
  assumes "lower (suffix output_path) = ''.jpg'' \<or> lower (suffix output_path) = ''.jpeg''"
    and "mode img = ''RGBA'' \<or> mode img = ''LA''"
    and "Image_open lib fs input_path = Some img"
    and "image_to_image lib fs input_path output_path = Inr fs'"
  shows "\<exists>bytes.
           encode lib (lower (splitext_ext (name output_path))) (normalise lib output_path img) = Some bytes
           \<and> fs' output_path = Some (File bytes)
           \<and> normalise lib output_path img
               = paste (Image_new ''RGB'' (dims img) [255, 255, 255]) img (split_last img)
           \<and> mode (normalise lib output_path img) = ''RGB''
           \<and> dims (normalise lib output_path img) = dims img
           \<and> (\<forall>x y r g b a.
                 x < fst (dims img) \<and> y < snd (dims img) \<and> mode img = ''RGBA''
                 \<and> pixel img (x, y) = [r, g, b, a] \<longrightarrow>
                 pixel (normalise lib output_path img) (x, y)
                   = [blend8 a 255 r, blend8 a 255 g, blend8 a 255 b])
           \<and> (\<forall>x y l a.
                 x < fst (dims img) \<and> y < snd (dims img) \<and> mode img = ''LA''
                 \<and> pixel img (x, y) = [l, a] \<longrightarrow>
                 pixel (normalise lib output_path img) (x, y)
                   = [blend8 a 255 l, blend8 a 255 l, blend8 a 255 l])
           \<and> (\<forall>x y r g b.
                 x < fst (dims img) \<and> y < snd (dims img) \<and> mode img = ''RGBA''
                 \<and> pixel img (x, y) = [r, g, b, 0] \<longrightarrow>
                 pixel (normalise lib output_path img) (x, y) = [255, 255, 255])
           \<and> (\<forall>x y l.
                 x < fst (dims img) \<and> y < snd (dims img) \<and> mode img = ''LA''
                 \<and> pixel img (x, y) = [l, 0] \<longrightarrow>
                 pixel (normalise lib output_path img) (x, y) = [255, 255, 255])
           \<and> (\<forall>x y r g b.
                 x < fst (dims img) \<and> y < snd (dims img) \<and> mode img = ''RGBA''
                 \<and> pixel img (x, y) = [r, g, b, 255] \<longrightarrow>
                 pixel (normalise lib output_path img) (x, y) = [r, g, b])"
proof -
  from image_to_image_written [OF assms(3) assms(4)] obtain bytes where
    enc: "encode lib (lower (splitext_ext (name output_path))) (normalise lib output_path img) = Some bytes"
    and wr: "fs' = fs(output_path \<mapsto> File bytes)"
    by blast
  have n: "normalise lib output_path img
             = paste (Image_new ''RGB'' (dims img) [255, 255, 255]) img (split_last img)"
    using assms(1) assms(2) by (auto simp: normalise_def Let_def)
  have px_rgba: "pixel (normalise lib output_path img) (x, y)
                   = [blend8 a 255 r, blend8 a 255 g, blend8 a 255 b]"
    if "x < fst (dims img)" "y < snd (dims img)" "mode img = ''RGBA''"
      "pixel img (x, y) = [r, g, b, a]" for x y r g b a
    using that by (simp add: n paste_def Image_new_def split_last_def colour_bytes_def)
  have px_la: "pixel (normalise lib output_path img) (x, y)
                   = [blend8 a 255 l, blend8 a 255 l, blend8 a 255 l]"
    if "x < fst (dims img)" "y < snd (dims img)" "mode img = ''LA''"
      "pixel img (x, y) = [l, a]" for x y l a
    using that by (simp add: n paste_def Image_new_def split_last_def colour_bytes_def)
  have m: "mode (normalise lib output_path img) = ''RGB''"
    by (simp add: n paste_def Image_new_def)
  have d: "dims (normalise lib output_path img) = dims img"
    by (simp add: n paste_def Image_new_def)
  have f: "fs' output_path = Some (File bytes)"
    by (simp add: wr)
  show ?thesis
    apply (rule exI [of _ bytes])
    apply (intro conjI allI impI)
            apply (rule enc)
           apply (rule f)
          apply (rule n)
         apply (rule m)
        apply (rule d)
       apply (simp add: px_rgba)
      apply (simp add: px_la)
     apply (simp add: px_rgba blend8_transparent)
    apply (simp add: px_la blend8_transparent)
    apply (simp add: px_rgba blend8_opaque)
    done
qed

theorem jpeg_alpha_composite_witness:
  "lower (suffix (rel [''a.jpg''])) = ''.jpg''
   \<and> mode example_image = ''RGBA''
   \<and> Image_open example_lib example_fs (rel [''a.png'']) = Some example_image
   \<and> \<not> isl (image_to_image example_lib example_fs (rel [''a.png'']) (rel [''a.jpg'']))
   \<and> pixel example_image (0, 0) = [10, 20, 30, 0]
   \<and> pixel example_image (1, 0) = [10, 20, 30, 255]
   \<and> pixel (normalise example_lib (rel [''a.jpg'']) example_image) (0, 0) = [255, 255, 255]
   \<and> pixel (normalise example_lib (rel [''a.jpg'']) example_image) (1, 0) = [10, 20, 30]
   \<and> mode (normalise example_lib (rel [''a.jpg'']) example_image) = ''RGB''
   \<and> dims (normalise example_lib (rel [''a.jpg'']) example_image) = (2, 1)
   \<and> projr (image_to_image example_lib example_fs (rel [''a.png'']) (rel [''a.jpg''])) (rel [''a.jpg''])
       = Some (File ''.jpg RGB'')"
proof -
  let ?r = "image_to_image example_lib example_fs (rel [''a.png'']) (rel [''a.jpg''])"
  let ?out = "normalise example_lib (rel [''a.jpg'']) example_image"
  have s: "lower (suffix (rel [''a.jpg''])) = ''.jpg''"
    by code_simp
  have m: "mode example_image = ''RGBA''"
    by (simp add: example_image_def)
  have ok: "\<not> isl ?r"
    by code_simp
  then have e: "?r = Inr (projr ?r)"
    by simp
  have p0: "pixel example_image (0, 0) = [10, 20, 30, 0]"
    by (simp add: example_image_def)
  have p1: "pixel example_image (1, 0) = [10, 20, 30, 255]"
    by (simp add: example_image_def)
  have d: "dims example_image = (2, 1)"
    by (simp add: example_image_def)
  from jpeg_alpha_composite [OF disjI1 [OF s] disjI1 [OF m] example_open e]
  obtain bytes where
    enc: "encode example_lib (lower (splitext_ext (name (rel [''a.jpg'']))))  ?out = Some bytes"
    and wr: "projr ?r (rel [''a.jpg'']) = Some (File bytes)"
    and md: "mode ?out = ''RGB''"
    and dm: "dims ?out = dims example_image"
    and tr: "\<forall>x y r g b.
                 x < fst (dims example_image) \<and> y < snd (dims example_image)
                 \<and> mode example_image = ''RGBA''
                 \<and> pixel example_image (x, y) = [r, g, b, 0] \<longrightarrow>
                 pixel ?out (x, y) = [255, 255, 255]"
    and opq: "\<forall>x y r g b.
                 x < fst (dims example_image) \<and> y < snd (dims example_image)
                 \<and> mode example_image = ''RGBA''
                 \<and> pixel example_image (x, y) = [r, g, b, 255] \<longrightarrow>
                 pixel ?out (x, y) = [r, g, b]"
    by (elim exE conjE) (rule that, assumption+)
  have x: "splitext_ext (name (rel [''a.jpg''])) = ''.jpg''"
    by code_simp
  from enc md have b: "bytes = ''.jpg RGB''"
    by (simp add: x example_lib_def lower_def lower_char_def upper_letters_def lower_letters_def)
  from tr [rule_format, of 0 0 10 20 30] m p0 d
  have q0: "pixel ?out (0, 0) = [255, 255, 255]"
    by simp
  from opq [rule_format, of 1 0 10 20 30] m p1 d
  have q1: "pixel ?out (1, 0) = [10, 20, 30]"
    by simp
  from s m example_open ok p0 p1 q0 q1 md dm d wr b show ?thesis
    by simp
qed

text \<open>
  C5. When the suffix of the output path is \<open>.ico\<close> (in any case), the image given to
  the encoder is \<^verbatim>\<open>img.resize((256, 256), LANCZOS)\<close> of the decoded image, whatever its
  dimensions and mode were: its dimensions are exactly 256 by 256.
\<close>

theorem ico_resized:
  assumes "lower (suffix output_path) = ''.ico''"
    and "Image_open lib fs input_path = Some img"
    and "image_to_image lib fs input_path output_path = Inr fs'"
  shows "\<exists>bytes.
           normalise lib output_path img = resize lib img (256, 256) LANCZOS
           \<and> dims (normalise lib output_path img) = (256, 256)
           \<and> mode (normalise lib output_path img) = mode img
           \<and> encode lib (lower (splitext_ext (name output_path))) (normalise lib output_path img) = Some bytes
           \<and> fs' output_path = Some (File bytes)"
proof -
  from image_to_image_written [OF assms(2) assms(3)] obtain bytes where
    enc: "encode lib (lower (splitext_ext (name output_path))) (normalise lib output_path img) = Some bytes"
    and wr: "fs' = fs(output_path \<mapsto> File bytes)"
    by blast
  have n: "normalise lib output_path img = resize lib img (256, 256) LANCZOS"
    using assms(1) by (simp add: normalise_def)
  from enc wr n show ?thesis
    by (simp add: resize_def)
qed


theorem ico_resized_witness:
  "lower (suffix (rel [''a.ico''])) = ''.ico''
   \<and> Image_open example_lib example_fs (rel [''a.png'']) = Some example_image
   \<and> dims example_image = (2, 1)
   \<and> \<not> isl (image_to_image example_lib example_fs (rel [''a.png'']) (rel [''a.ico'']))
   \<and> dims (normalise example_lib (rel [''a.ico'']) example_image) = (256, 256)
   \<and> projr (image_to_image example_lib example_fs (rel [''a.png'']) (rel [''a.ico''])) (rel [''a.ico''])
       = Some (File ''.ico RGBA'')"
proof -
  let ?r = "image_to_image example_lib example_fs (rel [''a.png'']) (rel [''a.ico''])"
  let ?out = "normalise example_lib (rel [''a.ico'']) example_image"
  have s: "lower (suffix (rel [''a.ico''])) = ''.ico''"
    by code_simp
  have ok: "\<not> isl ?r"
    by code_simp
  then have e: "?r = Inr (projr ?r)"
    by simp
  have d: "dims example_image = (2, 1)"
    by (simp add: example_image_def)
  from ico_resized [OF s example_open e]
  obtain bytes where
    enc: "encode example_lib (lower (splitext_ext (name (rel [''a.ico'']))))  ?out = Some bytes"
    and wr: "projr ?r (rel [''a.ico'']) = Some (File bytes)"
    and md: "mode ?out = mode example_image"
    and dm: "dims ?out = (256, 256)"
    by (elim exE conjE) (rule that, assumption+)
  have x: "splitext_ext (name (rel [''a.ico''])) = ''.ico''"
    by code_simp
  from enc md have b: "bytes = ''.ico RGBA''"
    by (simp add: x example_lib_def example_image_def lower_def lower_char_def upper_letters_def lower_letters_def)
  from s example_open d ok dm wr b show ?thesis
    by simp
qed


section \<open>The encoding follows the output path\<close>

text \<open>Directories made on the way change neither what can be opened nor what is a file.\<close>

lemma mkdir_parents_open:
  assumes "mkdir_parents fs p = Inr fs1"
  shows "Image_open lib fs1 q = Image_open lib fs q"
  using mkdir_parents_adds_dir [OF assms, of q]
  by (auto simp: Image_open_def node_at_def)

lemma mkdir_parents_is_file:
  assumes "mkdir_parents fs p = Inr fs1"
  shows "is_file fs1 q = is_file fs q"
  using mkdir_parents_adds_dir [OF assms, of q]
  by (auto simp: is_file_def node_at_def)

text \<open>What a successful call of \<^verbatim>\<open>convert\<close> went through.\<close>

lemma convert_success:
  assumes "convert lib fs input_path fmt out_dir = (Inr p, fs')"
  shows "\<exists>fs1 r.
           lower fmt \<in> supported_formats
           \<and> lstrip_dot (lower (suffix input_path)) \<noteq> lower fmt
           \<and> resolve_output fs input_path fmt out_dir = Inr p
           \<and> mkdir_parents fs (parent p) = Inr fs1
           \<and> get_conversion_method (lstrip_dot (lower (suffix input_path))) (lower fmt) = Some r
           \<and> run_routine r lib fs1 input_path p = Inr fs'"
proof (cases "lower fmt \<in> supported_formats \<and> lstrip_dot (lower (suffix input_path)) \<noteq> lower fmt")
  case False
  with assms show ?thesis
    by (auto simp: convert_def Let_def split: if_splits)
next
  case True
  with assms have c:
    "(case resolve_output fs input_path fmt out_dir of
        Inl e \<Rightarrow> (Inl e, fs)
      | Inr output_path \<Rightarrow>
          (case mkdir_parents fs (parent output_path) of
             Inl e \<Rightarrow> (Inl OSError, fs)
           | Inr fs1 \<Rightarrow>
               (case get_conversion_method (lstrip_dot (lower (suffix input_path))) (lower fmt) of
                  None \<Rightarrow> (Inl PairNotSupported, fs1)
                | Some conversion_method \<Rightarrow>
                    (case run_routine conversion_method lib fs1 input_path output_path of
                       Inl (e, fs2) \<Rightarrow> (Inl e, fs2)
                     | Inr fs2 \<Rightarrow> (Inr output_path, fs2))))) = (Inr p, fs')"
    by (simp add: convert_def Let_def)
  then show ?thesis
    using True by (simp split: sum.splits option.splits prod.splits)
qed

text \<open>
  C10. \<^verbatim>\<open>_image_to_image\<close> is given the two paths only. When the output location is
  an existing regular file and \<^verbatim>\<open>convert\<close> succeeds, the output path is that file, the
  image is normalised by the suffix of that file and encoded for the extension of that
  file, and the requested format plays no part: every other accepted format gives the
  same result and the same file system.
\<close>

theorem existing_output_file_decides_encoding:
  assumes "is_file fs d"
    and "convert lib fs input_path fmt (Some d) = (Inr p, fs')"
  shows "p = d
         \<and> (\<exists>img bytes.
               Image_open lib fs input_path = Some img
               \<and> encode lib (lower (splitext_ext (name d))) (normalise lib d img) = Some bytes
               \<and> fs' d = Some (File bytes))
         \<and> (\<forall>fmt2.
               lower fmt2 \<in> supported_formats
               \<and> get_conversion_method (lstrip_dot (lower (suffix input_path))) (lower fmt2) \<noteq> None \<longrightarrow>
               convert lib fs input_path fmt2 (Some d) = (Inr p, fs'))"
proof -
  let ?ext = "lstrip_dot (lower (suffix input_path))"
  from convert_success [OF assms(2)] assms(1) obtain fs1 r where
    sup: "lower fmt \<in> supported_formats"
    and ne: "?ext \<noteq> lower fmt"
    and pd: "p = d"
    and mk: "mkdir_parents fs (parent p) = Inr fs1"
    and lk: "get_conversion_method ?ext (lower fmt) = Some r"
    and run: "run_routine r lib fs1 input_path p = Inr fs'"
    by (auto simp: resolve_output_def)
  have r: "r = Image_to_image"
    by (cases r) simp
  from run r pd have i2i: "image_to_image lib fs1 input_path d = Inr fs'"
    by simp
  then obtain img where op1: "Image_open lib fs1 input_path = Some img"
    by (auto simp: image_to_image_def split: option.splits)
  from image_to_image_written [OF op1 i2i] obtain bytes where
    enc: "encode lib (lower (splitext_ext (name d))) (normalise lib d img) = Some bytes"
    and wr: "fs' = fs1(d \<mapsto> File bytes)"
    by blast
  from op1 mkdir_parents_open [OF mk] have op: "Image_open lib fs input_path = Some img"
    by simp
  have other: "convert lib fs input_path fmt2 (Some d) = (Inr p, fs')"
    if "lower fmt2 \<in> supported_formats"
      "get_conversion_method ?ext (lower fmt2) \<noteq> None" for fmt2
  proof -
    from that(2) obtain r2 where lk2: "get_conversion_method ?ext (lower fmt2) = Some r2"
      by auto
    have r2: "r2 = Image_to_image"
      by (cases r2) simp
    from that(2) no_identity_pair have ne2: "?ext \<noteq> lower fmt2"
      by metis
    from that(1) ne2 assms(1) mk lk2 r2 i2i pd show ?thesis
      by (simp add: convert_def resolve_output_def Let_def)
  qed
  from pd op enc wr other show ?thesis
    by auto
qed


theorem existing_output_file_decides_encoding_witness:
  "is_file example_fs (rel [''old.jpg''])
   \<and> fst (convert example_lib example_fs (rel [''a.png'']) ''bmp'' (Some (rel [''old.jpg''])))
       = Inr (rel [''old.jpg''])
   \<and> snd (convert example_lib example_fs (rel [''a.png'']) ''bmp'' (Some (rel [''old.jpg''])))
         (rel [''old.jpg'']) = Some (File ''.jpg RGB'')
   \<and> lower ''ico'' \<in> supported_formats
   \<and> get_conversion_method (lstrip_dot (lower (suffix (rel [''a.png''])))) (lower ''ico'') \<noteq> None
   \<and> convert example_lib example_fs (rel [''a.png'']) ''ico'' (Some (rel [''old.jpg'']))
       = convert example_lib example_fs (rel [''a.png'']) ''bmp'' (Some (rel [''old.jpg'']))"
proof -
  let ?c = "convert example_lib example_fs (rel [''a.png'']) ''bmp'' (Some (rel [''old.jpg'']))"
  let ?n = "normalise example_lib (rel [''old.jpg'']) example_image"
  have f: "is_file example_fs (rel [''old.jpg''])"
    by code_simp
  have g: "fst ?c = Inr (rel [''old.jpg''])"
    by code_simp
  then have e: "?c = (Inr (rel [''old.jpg'']), snd ?c)"
    by (simp add: prod_eq_iff)
  have h: "lower ''ico'' \<in> supported_formats
      \<and> get_conversion_method (lstrip_dot (lower (suffix (rel [''a.png''])))) (lower ''ico'') \<noteq> None"
    by code_simp
  note t = existing_output_file_decides_encoding [OF f e]
  from t obtain img bytes where
    op: "Image_open example_lib example_fs (rel [''a.png'']) = Some img"
    and enc: "encode example_lib (lower (splitext_ext (name (rel [''old.jpg''])))) (normalise example_lib (rel [''old.jpg'']) img) = Some bytes"
    and wr: "snd ?c (rel [''old.jpg'']) = Some (File bytes)"
    by (elim exE conjE) (rule that, assumption+)
  from op example_open have i: "img = example_image"
    by simp
  have x: "lower (splitext_ext (name (rel [''old.jpg'']))) = ''.jpg''"
    by code_simp
  have md: "mode ?n = ''RGB''"
    by code_simp
  from enc i x md have b: "bytes = ''.jpg RGB''"
    by (simp add: example_lib_def)
  from t h e have o: "convert example_lib example_fs (rel [''a.png'']) ''ico'' (Some (rel [''old.jpg''])) = ?c"
    by simp
  from f g wr b h o show ?thesis
    by simp
qed


section \<open>The batch loop and the exit status\<close>

text \<open>
  The log names the input files in order, and the counter grows by the number of
  successes recorded.
\<close>

lemma batch_loop_log:
  "batch_loop lib fs files fmt out n0 = (n, lg, fs') \<Longrightarrow>
     map fst lg = files \<and> n = n0 + length (filter (\<lambda>r. \<not> isl (snd r)) lg)"
proof (induction files arbitrary: fs n0 n lg fs')
  case Nil
  then show ?case by simp
next
  case (Cons f rest)
  obtain r fs1 where c: "convert lib fs f fmt out = (r, fs1)"
    by (cases "convert lib fs f fmt out")
  show ?case
  proof (cases r)
    case (Inl e)
    obtain n1 lg1 fs2 where b: "batch_loop lib fs1 rest fmt out n0 = (n1, lg1, fs2)"
      by (cases "batch_loop lib fs1 rest fmt out n0")
    from Cons.prems c Inl b have "n = n1" "lg = (f, Inl e) # lg1"
      by simp_all
    with Cons.IH [OF b] show ?thesis
      by simp
  next
    case (Inr p)
    obtain n1 lg1 fs2 where b: "batch_loop lib fs1 rest fmt out (n0 + 1) = (n1, lg1, fs2)"
      by (cases "batch_loop lib fs1 rest fmt out (n0 + 1)")
    from Cons.prems c Inr b have "n = n1" "lg = (f, Inr p) # lg1"
      by simp_all
    with Cons.IH [OF b] show ?thesis
      by simp
  qed
qed

lemma batch_loop_append:
  "batch_loop lib fs (xs @ ys) fmt out n0 =
     (case batch_loop lib fs xs fmt out n0 of
        (n1, lg1, fs1) \<Rightarrow>
          (case batch_loop lib fs1 ys fmt out n1 of
             (n2, lg2, fs2) \<Rightarrow> (n2, lg1 @ lg2, fs2)))"
proof (induction xs arbitrary: fs n0)
  case Nil
  show ?case by (simp split: prod.splits)
next
  case (Cons f rest)
  obtain r fs1 where c: "convert lib fs f fmt out = (r, fs1)"
    by (cases "convert lib fs f fmt out")
  show ?case
  proof (cases r)
    case (Inl e)
    with c Cons.IH [of fs1 n0] show ?thesis
      by (simp split: prod.splits)
  next
    case (Inr p)
    with c Cons.IH [of fs1 "n0 + 1"] show ?thesis
      by (simp split: prod.splits)
  qed
qed


text \<open>
  C9. The claim: blank lines of the batch list are skipped and never contribute an entry.
  \<^verbatim>\<open>get_input_files\<close> strips each line and keeps the path when it exists; a blank
  line strips to the empty string, \<^verbatim>\<open>Path('')\<close> is the current directory, which
  exists, so the blank line adds the path \<open>.\<close> to the input files. Here the list names
  \<open>a.png\<close>, then a blank line, then a missing file: the missing file is skipped, the
  blank line is not.
\<close>

theorem blank_line_adds_current_directory:
  "example_fs (rel [''list.txt'']) = Some (File (''a.png'' @ [CHR 0x0A, CHR 0x0A] @ ''missing.png'' @ [CHR 0x0A]))
   \<and> lines_of (universal_newlines (''a.png'' @ [CHR 0x0A, CHR 0x0A] @ ''missing.png'' @ [CHR 0x0A]))
       = [''a.png'' @ [CHR 0x0A], [CHR 0x0A], ''missing.png'' @ [CHR 0x0A]]
   \<and> Path (strip [CHR 0x0A]) = rel []
   \<and> path_exists example_fs (rel [])
   \<and> get_input_files example_listing example_fs (example_args\<lparr>batch := Some (rel [''list.txt''])\<rparr>)
       = Inr [rel [''a.png''], rel []]"
  by code_simp

text \<open>
  What \<^verbatim>\<open>main\<close> does with a namespace: it returns 1 at once unless the arguments
  validate, input files are found and a format is known; otherwise it runs the loop.
\<close>

lemma main_rejected:
  assumes "\<not> (validate_args fs a
              \<and> (\<exists>files fmt. get_input_files os fs a = Inr files \<and> files \<noteq> []
                    \<and> determine_format a files = Some fmt))"
  shows "main lib os fs intr (Parsed a) = (1, [], fs)"
  using assms
  by (auto simp: main_def split: sum.splits option.splits)

lemma main_loop:
  assumes "validate_args fs a" and "get_input_files os fs a = Inr files" and "files \<noteq> []"
    and "determine_format a files = Some fmt"
  shows "main lib os fs intr (Parsed a) =
           (case loop_with_interrupt lib fs files fmt (output_arg a) intr of
              Inl (lg, fs') \<Rightarrow> (1, lg, fs')
            | Inr (n, lg, fs') \<Rightarrow> (if 0 < n then 0 else 1, lg, fs'))"
  using assms by (simp add: main_def)

lemma success_recorded:
  "(0 < length (filter (\<lambda>r. \<not> isl (snd r)) lg)) = (\<exists>f p. (f, Inr p) \<in> set lg)"
  for lg :: log
proof -
  have "(\<exists>r \<in> set lg. \<not> isl (snd r)) = (\<exists>f p. (f, Inr p) \<in> set lg)"
  proof
    assume "\<exists>r \<in> set lg. \<not> isl (snd r)"
    then obtain f r where "(f, r) \<in> set lg" "\<not> isl r"
      by auto
    then show "\<exists>f p. (f, Inr p) \<in> set lg"
      by (cases r) auto
  next
    assume "\<exists>f p. (f, Inr p) \<in> set lg"
    then show "\<exists>r \<in> set lg. \<not> isl (snd r)"
      by force
  qed
  then show ?thesis
    by (simp add: filter_empty_conv)
qed

text \<open>The loop over the first \<open>i\<close> files has recorded the first \<open>i\<close> records of the whole loop.\<close>

lemma batch_loop_take:
  "fst (snd (batch_loop lib fs (take i files) fmt out 0))
     = take i (fst (snd (batch_loop lib fs files fmt out 0)))"
proof -
  obtain n1 lg1 s1 where p: "batch_loop lib fs (take i files) fmt out 0 = (n1, lg1, s1)"
    by (cases "batch_loop lib fs (take i files) fmt out 0")
  obtain n2 lg2 s2 where q: "batch_loop lib s1 (drop i files) fmt out n1 = (n2, lg2, s2)"
    by (cases "batch_loop lib s1 (drop i files) fmt out n1")
  from batch_loop_append [of lib fs "take i files" "drop i files" fmt out 0] p q
  have whole: "fst (snd (batch_loop lib fs files fmt out 0)) = lg1 @ lg2"
    by simp
  from batch_loop_log [OF p] have l1: "length lg1 = length (take i files)"
    by (metis length_map)
  from batch_loop_log [OF q] have l2: "length lg2 = length (drop i files)"
    by (metis length_map)
  have "take i (lg1 @ lg2) = lg1"
  proof (cases "i \<le> length files")
    case True
    with l1 show ?thesis
      by simp
  next
    case False
    with l1 l2 show ?thesis
      by simp
  qed
  with p whole show ?thesis
    by simp
qed

text \<open>
  C7, as the claim states it, fails in both directions. \<^verbatim>\<open>--version\<close> (an action of
  the parser that \<^verbatim>\<open>create_parser\<close> builds) ends the process with status 0 and no
  file converted. And a run that is interrupted exits with status 1 after files were
  converted: here the batch list gives \<open>a.png\<close> and the current directory, \<open>a.png\<close> is
  converted, the interrupt arrives in the second file, and \<^verbatim>\<open>main\<close> returns 1.
\<close>

theorem version_exits_zero:
  "main example_lib example_listing example_fs None Version = (0, [], example_fs)
   \<and> fst (snd (main example_lib example_listing example_fs (Some 1)
       (Parsed (example_args\<lparr>batch := Some (rel [''list.txt'']), output_format := Some ''jpg''\<rparr>))))
     = [(rel [''a.png''], Inr (rel [''a.jpg'']))]
   \<and> fst (main example_lib example_listing example_fs (Some 1)
       (Parsed (example_args\<lparr>batch := Some (rel [''list.txt'']), output_format := Some ''jpg''\<rparr>))) = 1"
proof -
  have v: "main example_lib example_listing example_fs None Version = (0, [], example_fs)"
    by (simp add: main_def)
  have l: "fst (snd (main example_lib example_listing example_fs (Some 1)
       (Parsed (example_args\<lparr>batch := Some (rel [''list.txt'']), output_format := Some ''jpg''\<rparr>))))
     = [(rel [''a.png''], Inr (rel [''a.jpg'']))]"
    by code_simp
  have c: "fst (main example_lib example_listing example_fs (Some 1)
       (Parsed (example_args\<lparr>batch := Some (rel [''list.txt'']), output_format := Some ''jpg''\<rparr>))) = 1"
    by code_simp
  show ?thesis
    by (intro conjI) (rule v l c)+
qed

text \<open>
  C7, amended. The parser itself ends the process with status 0 for \<^verbatim>\<open>--version\<close> and
  \<^verbatim>\<open>--help\<close> and with status 2 for a usage error. When it returns a namespace and no
  interrupt arrives, the exit status is 0 exactly when the log holds a successful
  conversion, and 1 otherwise, in particular when the arguments do not validate and when
  no input file is found (then nothing is attempted). When an interrupt is to arrive in
  the file of index \<open>i\<close>: the exit status is still 0 or 1, and 0 only if a conversion
  succeeded; if the run has such a file, the exit status is 1 whatever was converted; if
  it has none, the run is the run without interrupt; and the log is that of the run
  without interrupt, cut before the file of index \<open>i\<close>.
\<close>

theorem main_exit_code:
  "main lib os fs intr Version = (0, [], fs)
   \<and> main lib os fs intr Help = (0, [], fs)
   \<and> main lib os fs intr Usage_error = (2, [], fs)
   \<and> (\<forall>code lg fs'.
         main lib os fs None (Parsed a) = (code, lg, fs') \<longrightarrow>
           (code = 0 \<longleftrightarrow> (\<exists>f p. (f, Inr p) \<in> set lg))
           \<and> (code = 0 \<or> code = 1)
           \<and> (\<not> validate_args fs a \<longrightarrow> code = 1 \<and> lg = [])
           \<and> (get_input_files os fs a = Inr [] \<longrightarrow> code = 1 \<and> lg = []))
   \<and> (\<forall>i code lg fs'.
         main lib os fs (Some i) (Parsed a) = (code, lg, fs') \<longrightarrow>
           (code = 0 \<or> code = 1)
           \<and> (code = 0 \<longrightarrow> (\<exists>f p. (f, Inr p) \<in> set lg))
           \<and> (\<forall>files. get_input_files os fs a = Inr files \<and> i < length files \<longrightarrow> code = 1)
           \<and> (\<forall>files. get_input_files os fs a = Inr files \<and> length files \<le> i \<longrightarrow>
                 main lib os fs None (Parsed a) = (code, lg, fs'))
           \<and> lg = take i (fst (snd (main lib os fs None (Parsed a)))))"
proof -
  let ?G = "validate_args fs a
              \<and> (\<exists>files fmt. get_input_files os fs a = Inr files \<and> files \<noteq> []
                    \<and> determine_format a files = Some fmt)"
  have plain:
    "(code = 0 \<longleftrightarrow> (\<exists>f p. (f, Inr p) \<in> set lg))
     \<and> (code = 0 \<or> code = 1)
     \<and> (\<not> validate_args fs a \<longrightarrow> code = 1 \<and> lg = [])
     \<and> (get_input_files os fs a = Inr [] \<longrightarrow> code = 1 \<and> lg = [])"
    if m: "main lib os fs None (Parsed a) = (code, lg, fs')" for code lg fs'
  proof (cases ?G)
    case False
    from main_rejected [OF False, of lib None] m have "code = 1" "lg = []"
      by simp_all
    then show ?thesis
      by simp
  next
    case True
    then obtain files fmt where v: "validate_args fs a"
      and g: "get_input_files os fs a = Inr files" and ne: "files \<noteq> []"
      and d: "determine_format a files = Some fmt"
      by blast
    obtain n lg0 s where b: "batch_loop lib fs files fmt (output_arg a) 0 = (n, lg0, s)"
      by (cases "batch_loop lib fs files fmt (output_arg a) 0")
    from main_loop [OF v g ne d, of lib None] m b
    have c: "code = (if 0 < n then 0 else 1)" and l: "lg = lg0"
      by (simp_all add: loop_with_interrupt_def)
    from batch_loop_log [OF b] have "n = length (filter (\<lambda>r. \<not> isl (snd r)) lg0)"
      by simp
    with c l success_recorded [of lg0] have "(code = 0) = (\<exists>f p. (f, Inr p) \<in> set lg)"
      by simp
    moreover from c have "code = 0 \<or> code = 1"
      by simp
    ultimately show ?thesis
      using v g ne by simp
  qed
  have interrupted:
    "(code = 0 \<or> code = 1)
     \<and> (code = 0 \<longrightarrow> (\<exists>f p. (f, Inr p) \<in> set lg))
     \<and> (\<forall>files. get_input_files os fs a = Inr files \<and> i < length files \<longrightarrow> code = 1)
     \<and> (\<forall>files. get_input_files os fs a = Inr files \<and> length files \<le> i \<longrightarrow>
           main lib os fs None (Parsed a) = (code, lg, fs'))
     \<and> lg = take i (fst (snd (main lib os fs None (Parsed a))))"
    if m: "main lib os fs (Some i) (Parsed a) = (code, lg, fs')" for i code lg fs'
  proof (cases ?G)
    case False
    from main_rejected [OF False, of lib "Some i"] m
    have "code = 1" "lg = []" "fs' = fs"
      by simp_all
    with main_rejected [OF False, of lib None] show ?thesis
      by simp
  next
    case True
    then obtain files fmt where v: "validate_args fs a"
      and g: "get_input_files os fs a = Inr files" and ne: "files \<noteq> []"
      and d: "determine_format a files = Some fmt"
      by blast
    obtain n lg0 s where b: "batch_loop lib fs files fmt (output_arg a) 0 = (n, lg0, s)"
      by (cases "batch_loop lib fs files fmt (output_arg a) 0")
    from main_loop [OF v g ne d, of lib None] b
    have whole: "main lib os fs None (Parsed a) = (if 0 < n then 0 else 1, lg0, s)"
      by (simp add: loop_with_interrupt_def)
    from batch_loop_log [OF b] have cnt: "n = length (filter (\<lambda>r. \<not> isl (snd r)) lg0)"
      and len: "length lg0 = length files"
      by (simp, metis length_map)
    show ?thesis
    proof (cases "i < length files")
      case True
      obtain n1 lg1 s1 where p: "batch_loop lib fs (take i files) fmt (output_arg a) 0 = (n1, lg1, s1)"
        by (cases "batch_loop lib fs (take i files) fmt (output_arg a) 0")
      from main_loop [OF v g ne d, of lib "Some i"] m p True
      have c: "code = 1" and l: "lg = lg1"
        by (simp_all add: loop_with_interrupt_def)
      from batch_loop_take [of lib fs i files fmt "output_arg a"] p b
      have "lg1 = take i lg0"
        by simp
      with c l whole g True show ?thesis
        by simp
    next
      case False
      from main_loop [OF v g ne d, of lib "Some i"] m b False
      have c: "code = (if 0 < n then 0 else 1)" and l: "lg = lg0" and f: "fs' = s"
        by (simp_all add: loop_with_interrupt_def)
      from c l cnt success_recorded [of lg0]
      have "code = 0 \<longrightarrow> (\<exists>f p. (f, Inr p) \<in> set lg)"
        by simp
      moreover from c have "code = 0 \<or> code = 1"
        by simp
      moreover from l len False have "lg = take i lg0"
        by simp
      ultimately show ?thesis
        using c l f whole g False by simp
    qed
  qed
  have A: "main lib os fs intr Version = (0, [], fs)"
    and B: "main lib os fs intr Help = (0, [], fs)"
    and C: "main lib os fs intr Usage_error = (2, [], fs)"
    by (simp_all add: main_def)
  have D: "\<forall>code lg fs'.
         main lib os fs None (Parsed a) = (code, lg, fs') \<longrightarrow>
           (code = 0 \<longleftrightarrow> (\<exists>f p. (f, Inr p) \<in> set lg))
           \<and> (code = 0 \<or> code = 1)
           \<and> (\<not> validate_args fs a \<longrightarrow> code = 1 \<and> lg = [])
           \<and> (get_input_files os fs a = Inr [] \<longrightarrow> code = 1 \<and> lg = [])"
    using plain by blast
  have E: "\<forall>i code lg fs'.
         main lib os fs (Some i) (Parsed a) = (code, lg, fs') \<longrightarrow>
           (code = 0 \<or> code = 1)
           \<and> (code = 0 \<longrightarrow> (\<exists>f p. (f, Inr p) \<in> set lg))
           \<and> (\<forall>files. get_input_files os fs a = Inr files \<and> i < length files \<longrightarrow> code = 1)
           \<and> (\<forall>files. get_input_files os fs a = Inr files \<and> length files \<le> i \<longrightarrow>
                 main lib os fs None (Parsed a) = (code, lg, fs'))
           \<and> lg = take i (fst (snd (main lib os fs None (Parsed a))))"
    using interrupted by blast
  show ?thesis
    by (intro conjI) (rule A B C D E)+
qed

theorem main_exit_code_witness:
  "fst (snd (main example_lib example_listing example_fs None
       (Parsed (example_args\<lparr>batch := Some (rel [''list.txt'']), output_format := Some ''jpg''\<rparr>))))
     = [(rel [''a.png''], Inr (rel [''a.jpg''])), (rel [], Inl ValueError)]
   \<and> fst (main example_lib example_listing example_fs None
       (Parsed (example_args\<lparr>batch := Some (rel [''list.txt'']), output_format := Some ''jpg''\<rparr>))) = 0
   \<and> fst (main example_lib example_listing example_fs None
       (Parsed (example_args\<lparr>input_paths := Some [''b.png''], output_format := Some ''jpg''\<rparr>))) = 1
   \<and> \<not> (\<exists>f p. (f, Inr p) \<in> set (fst (snd (main example_lib example_listing example_fs None
       (Parsed (example_args\<lparr>input_paths := Some [''b.png''], output_format := Some ''jpg''\<rparr>))))))
   \<and> \<not> validate_args example_fs example_args
   \<and> fst (main example_lib example_listing example_fs None (Parsed example_args)) = 1
   \<and> get_input_files example_listing example_fs
         (example_args\<lparr>batch := Some (rel [''list.txt'']), output_format := Some ''jpg''\<rparr>)
       = Inr [rel [''a.png''], rel []]
   \<and> fst (main example_lib example_listing example_fs (Some 1)
       (Parsed (example_args\<lparr>batch := Some (rel [''list.txt'']), output_format := Some ''jpg''\<rparr>))) = 1
   \<and> fst (snd (main example_lib example_listing example_fs (Some 1)
       (Parsed (example_args\<lparr>batch := Some (rel [''list.txt'']), output_format := Some ''jpg''\<rparr>))))
     = [(rel [''a.png''], Inr (rel [''a.jpg'']))]"
proof -
  let ?a1 = "example_args\<lparr>batch := Some (rel [''list.txt'']), output_format := Some ''jpg''\<rparr>"
  let ?a2 = "example_args\<lparr>input_paths := Some [''b.png''], output_format := Some ''jpg''\<rparr>"
  let ?m1 = "main example_lib example_listing example_fs None (Parsed ?a1)"
  let ?m2 = "main example_lib example_listing example_fs None (Parsed ?a2)"
  let ?m3 = "main example_lib example_listing example_fs None (Parsed example_args)"
  let ?m4 = "main example_lib example_listing example_fs (Some 1) (Parsed ?a1)"
  have l1: "fst (snd ?m1) = [(rel [''a.png''], Inr (rel [''a.jpg''])), (rel [], Inl ValueError)]"
    by code_simp
  have c2: "fst ?m2 = 1"
    by code_simp
  have v3: "\<not> validate_args example_fs example_args"
    by code_simp
  have g1: "get_input_files example_listing example_fs ?a1 = Inr [rel [''a.png''], rel []]"
    by code_simp
  have e1: "?m1 = (fst ?m1, fst (snd ?m1), snd (snd ?m1))"
    by simp
  have e2: "?m2 = (fst ?m2, fst (snd ?m2), snd (snd ?m2))"
    by simp
  have e3: "?m3 = (fst ?m3, fst (snd ?m3), snd (snd ?m3))"
    by simp
  have e4: "?m4 = (fst ?m4, fst (snd ?m4), snd (snd ?m4))"
    by simp
  note t1 = main_exit_code [of example_lib example_listing example_fs None ?a1, THEN conjunct2,
      THEN conjunct2, THEN conjunct2, THEN conjunct1, rule_format, OF e1]
  note t2 = main_exit_code [of example_lib example_listing example_fs None ?a2, THEN conjunct2,
      THEN conjunct2, THEN conjunct2, THEN conjunct1, rule_format, OF e2]
  note t3 = main_exit_code [of example_lib example_listing example_fs None example_args, THEN conjunct2,
      THEN conjunct2, THEN conjunct2, THEN conjunct1, rule_format, OF e3]
  note t4 = main_exit_code [of example_lib example_listing example_fs None ?a1, THEN conjunct2,
      THEN conjunct2, THEN conjunct2, THEN conjunct2, rule_format, OF e4]
  from t1 l1 have c1: "fst ?m1 = 0"
    by simp
  from t2 c2 have n2: "\<not> (\<exists>f p. (f, Inr p) \<in> set (fst (snd ?m2)))"
    by simp
  from t3 v3 have c3: "fst ?m3 = 1"
    by simp
  from t4 have i4: "\<forall>files. get_input_files example_listing example_fs ?a1 = Inr files
      \<and> 1 < length files \<longrightarrow> fst ?m4 = 1"
    by (elim conjE)
  from t4 have k4: "fst (snd ?m4) = take 1 (fst (snd ?m1))"
    by (elim conjE)
  from i4 [rule_format, of "[rel [''a.png''], rel []]"] g1 have c4: "fst ?m4 = 1"
    by simp
  from k4 l1 have l4: "fst (snd ?m4) = [(rel [''a.png''], Inr (rel [''a.jpg'']))]"
    by simp
  show ?thesis
    by (intro conjI) (rule l1 c1 c2 n2 v3 c3 g1 c4 l4)+
qed


section \<open>The case of format tokens\<close>

text \<open>
  Lower-casing a name moves neither its last dot nor its separators, so the suffix and
  the extension of the lower-cased name are the lower-cased suffix and extension.
\<close>

lemma rfind_lower: "rfind CHR ''.'' (map lower_char s) = rfind CHR ''.'' s"
  by (induction s) (auto split: option.splits)

lemma suffix_lower:
  "suffix \<lparr>root = r, names = ns @ [lower n]\<rparr> = lower (suffix \<lparr>root = r, names = ns @ [n]\<rparr>)"
  by (simp add: suffix_def name_def lower_def rfind_lower drop_map split: option.splits)

lemma splitext_lower: "splitext_ext (lower n) = lower (splitext_ext n)"
  by (auto simp: splitext_ext_def lower_def rfind_lower drop_map take_map list_all_iff split: option.splits)

lemma split_on_nonempty [simp]: "split_on c s \<noteq> []"
  by (induction s) (auto split: list.splits)

lemma split_on_append:
  "c \<notin> set t \<Longrightarrow> split_on c (s @ t) = butlast (split_on c s) @ [last (split_on c s) @ t]"
proof (induction s)
  case Nil
  then show ?case
    by (induction t) (auto split: list.splits)
next
  case (Cons x s)
  then show ?case
    by (auto split: list.splits simp: butlast_append)
qed


lemma lower_suffix: "lower (suffix p) = suffix \<lparr>root = [], names = [lower (name p)]\<rparr>"
  by (simp add: suffix_def name_def lower_def rfind_lower drop_map Let_def split: option.splits)

lemma lower_suffix_cong:
  "lower (name p) = lower (name q) \<Longrightarrow> lower (suffix p) = lower (suffix q)"
  by (simp add: lower_suffix)

lemma lower_splitext_cong:
  "lower (name p) = lower (name q) \<Longrightarrow>
     lower (splitext_ext (name p)) = lower (splitext_ext (name q))"
  by (simp add: splitext_lower [symmetric])

lemma lower_char_slash [simp]: "lower_char c = CHR ''/'' \<longleftrightarrow> c = CHR ''/''"
  unfolding lower_char_def upper_letters_def lower_letters_def
  by simp

lemma lower_char_slash_id [simp]: "lower_char CHR ''/'' = CHR ''/''"
  by simp

lemma supported_no_slash:
  assumes "lower fmt \<in> supported_formats"
  shows "fmt \<noteq> [] \<and> CHR ''/'' \<notin> set fmt"
proof -
  have a: "s \<in> supported_formats \<Longrightarrow> s \<noteq> [] \<and> CHR ''/'' \<notin> set s" for s
    by (auto simp: supported_formats_def)
  have b: "CHR ''/'' \<in> set fmt \<Longrightarrow> CHR ''/'' \<in> set (lower fmt)"
    by (induction fmt) (auto simp: lower_def)
  from a [OF assms] b show ?thesis
    by (auto simp: lower_def)
qed

lemma splitroot_append:
  assumes "t \<noteq> []" "hd t \<noteq> CHR ''/''"
  shows "splitroot (s @ t) = (fst (splitroot s), snd (splitroot s) @ t)"
proof (cases "s \<noteq> [] \<and> hd s = CHR ''/''")
  case True
  have d: "dropWhile (\<lambda>c. c = CHR ''/'') (s @ t) = dropWhile (\<lambda>c. c = CHR ''/'') s @ t"
    using assms by (induction s) (auto simp: neq_Nil_conv)
  from True d show ?thesis
    by (auto simp: splitroot_def Let_def)
next
  case False
  with assms show ?thesis
    by (cases s) (auto simp: splitroot_def)
qed

lemma Path_with_extension:
  assumes "fmt \<noteq> []" "CHR ''/'' \<notin> set fmt"
  shows "Path (s @ ''.'' @ fmt) =
           \<lparr>root = fst (splitroot s),
            names = filter (\<lambda>x. x \<noteq> [] \<and> x \<noteq> ''.'') (butlast (split_on CHR ''/'' (snd (splitroot s))))
                    @ [last (split_on CHR ''/'' (snd (splitroot s))) @ ''.'' @ fmt]\<rparr>"
proof -
  have sr: "splitroot (s @ ''.'' @ fmt) = (fst (splitroot s), snd (splitroot s) @ ''.'' @ fmt)"
    by (rule splitroot_append) simp_all
  have sp: "split_on CHR ''/'' (snd (splitroot s) @ ''.'' @ fmt)
      = butlast (split_on CHR ''/'' (snd (splitroot s)))
        @ [last (split_on CHR ''/'' (snd (splitroot s))) @ ''.'' @ fmt]"
    by (rule split_on_append) (use assms in simp)
  have ne: "l @ ''.'' @ fmt \<noteq> ''.''" for l
    using assms(1) by (cases l) auto
  from sr sp ne show ?thesis
    by (simp add: Path_def)
qed



text \<open>
  The path \<^verbatim>\<open>d / (stem + '.' + fmt)\<close> ends in a name that ends in the dot and the
  format; nothing else of it depends on the format.
\<close>

lemma joinpath_with_extension:
  "\<exists>r ns l. \<forall>f. f \<noteq> [] \<and> CHR ''/'' \<notin> set f \<longrightarrow>
           joinpath d (s @ ''.'' @ f) = \<lparr>root = r, names = ns @ [l @ ''.'' @ f]\<rparr>"
proof -
  let ?front = "filter (\<lambda>x. x \<noteq> [] \<and> x \<noteq> ''.'') (butlast (split_on CHR ''/'' (snd (splitroot s))))"
  let ?l = "last (split_on CHR ''/'' (snd (splitroot s)))"
  have P: "Path (s @ ''.'' @ f) = \<lparr>root = fst (splitroot s), names = ?front @ [?l @ ''.'' @ f]\<rparr>"
    if "f \<noteq> []" "CHR ''/'' \<notin> set f" for f
    using Path_with_extension [OF that] .
  show ?thesis
  proof (cases "fst (splitroot s) \<noteq> []")
    case True
    have "\<forall>f. f \<noteq> [] \<and> CHR ''/'' \<notin> set f \<longrightarrow>
           joinpath d (s @ ''.'' @ f) = \<lparr>root = fst (splitroot s), names = ?front @ [?l @ ''.'' @ f]\<rparr>"
    proof (intro allI impI)
      fix f :: string
      assume a: "f \<noteq> [] \<and> CHR ''/'' \<notin> set f"
      note p = P [OF conjunct1 [OF a] conjunct2 [OF a]]
      show "joinpath d (s @ ''.'' @ f) = \<lparr>root = fst (splitroot s), names = ?front @ [?l @ ''.'' @ f]\<rparr>"
        unfolding joinpath_def Let_def p using True by simp
    qed
    then show ?thesis
      by blast
  next
    case False
    have "\<forall>f. f \<noteq> [] \<and> CHR ''/'' \<notin> set f \<longrightarrow>
           joinpath d (s @ ''.'' @ f) = \<lparr>root = root d, names = (names d @ ?front) @ [?l @ ''.'' @ f]\<rparr>"
    proof (intro allI impI)
      fix f :: string
      assume a: "f \<noteq> [] \<and> CHR ''/'' \<notin> set f"
      note p = P [OF conjunct1 [OF a] conjunct2 [OF a]]
      show "joinpath d (s @ ''.'' @ f) = \<lparr>root = root d, names = (names d @ ?front) @ [?l @ ''.'' @ f]\<rparr>"
        unfolding joinpath_def Let_def p using False by simp
    qed
    then show ?thesis
      by blast
  qed
qed

lemma resolve_output_lower:
  assumes "lower fmt \<in> supported_formats"
  shows "(\<exists>e. resolve_output fs input_path fmt out_dir = Inl e
            \<and> resolve_output fs input_path (lower fmt) out_dir = Inl e)
         \<or> (\<exists>p1 p2. resolve_output fs input_path fmt out_dir = Inr p1
            \<and> resolve_output fs input_path (lower fmt) out_dir = Inr p2
            \<and> parent p1 = parent p2 \<and> lower (name p1) = lower (name p2))"
proof -
  from supported_no_slash [OF assms] have f: "fmt \<noteq> []" "CHR ''/'' \<notin> set fmt"
    by simp_all
  from assms have "lower (lower fmt) \<in> supported_formats"
    by simp
  from supported_no_slash [OF this] have lf: "lower fmt \<noteq> []" "CHR ''/'' \<notin> set (lower fmt)"
    by simp_all
  show ?thesis
  proof (cases out_dir)
    case None
    show ?thesis
    proof (cases "name input_path = []")
      case True
      with None show ?thesis
        by (simp add: resolve_output_def with_suffix_def)
    next
      case False
      with None f lf show ?thesis
        by (simp add: resolve_output_def with_suffix_def parent_def name_def lower_def)
    qed
  next
    case (Some d)
    show ?thesis
    proof (cases "is_file fs d")
      case True
      with Some show ?thesis
        by (simp add: resolve_output_def)
    next
      case False
      from joinpath_with_extension [of d "stem input_path"] obtain r ns l where
        j: "\<And>f. f \<noteq> [] \<Longrightarrow> CHR ''/'' \<notin> set f \<Longrightarrow>
              joinpath d (stem input_path @ ''.'' @ f) = \<lparr>root = r, names = ns @ [l @ ''.'' @ f]\<rparr>"
        by blast
      from j [OF f] j [OF lf] Some False show ?thesis
        by (simp add: resolve_output_def parent_def name_def lower_def)
    qed
  qed
qed

lemma run_routine_eq: "run_routine r lib fs ip op = image_to_image lib fs ip op"
  by (cases r) simp

lemma image_to_image_error: "image_to_image lib fs ip op = Inl (e, s) \<Longrightarrow> e = ConversionFailed"
  by (auto simp: image_to_image_def split: option.splits prod.splits if_splits)

lemma convert_stages:
  "convert lib fs input_path fmt out_dir =
     (if lower fmt \<notin> supported_formats then (Inl UnsupportedFormat, fs)
      else if lstrip_dot (lower (suffix input_path)) = lower fmt then (Inl SameFormat, fs)
      else
        (case resolve_output fs input_path fmt out_dir of
           Inl e \<Rightarrow> (Inl e, fs)
         | Inr p \<Rightarrow>
             (case mkdir_parents fs (parent p) of
                Inl e \<Rightarrow> (Inl OSError, fs)
              | Inr fs1 \<Rightarrow>
                  (case get_conversion_method (lstrip_dot (lower (suffix input_path))) (lower fmt) of
                     None \<Rightarrow> (Inl PairNotSupported, fs1)
                   | Some r \<Rightarrow>
                       (case image_to_image lib fs1 input_path p of
                          Inl (e, fs2) \<Rightarrow> (Inl e, fs2)
                        | Inr fs2 \<Rightarrow> (Inr p, fs2))))))"
  by (simp add: convert_def Let_def run_routine_eq cong: sum.case_cong option.case_cong)


lemma normalise_cong:
  "lower (suffix p) = lower (suffix q) \<Longrightarrow> normalise lib p img = normalise lib q img"
  by (simp add: normalise_def)

lemma resolve_output_error: "resolve_output fs input_path fmt out_dir = Inl e \<Longrightarrow> e = ValueError"
  by (auto simp: resolve_output_def with_suffix_def split: option.splits if_splits)

lemma convert_lower_cases:
  assumes sup: "lower fmt \<in> supported_formats"
    and ne: "lstrip_dot (lower (suffix input_path)) \<noteq> lower fmt"
  shows "(\<exists>e. e \<noteq> ConversionFailed
            \<and> convert lib fs input_path fmt out_dir = (Inl e, fs)
            \<and> convert lib fs input_path (lower fmt) out_dir = (Inl e, fs))
         \<or> (\<exists>fs1. convert lib fs input_path fmt out_dir = (Inl PairNotSupported, fs1)
            \<and> convert lib fs input_path (lower fmt) out_dir = (Inl PairNotSupported, fs1))
         \<or> (\<exists>p1 p2 fs1.
              resolve_output fs input_path fmt out_dir = Inr p1
            \<and> resolve_output fs input_path (lower fmt) out_dir = Inr p2
            \<and> parent p1 = parent p2 \<and> lower (name p1) = lower (name p2)
            \<and> convert lib fs input_path fmt out_dir =
                (case image_to_image lib fs1 input_path p1 of
                   Inl (e, s) \<Rightarrow> (Inl e, s) | Inr fs2 \<Rightarrow> (Inr p1, fs2))
            \<and> convert lib fs input_path (lower fmt) out_dir =
                (case image_to_image lib fs1 input_path p2 of
                   Inl (e, s) \<Rightarrow> (Inl e, s) | Inr fs2 \<Rightarrow> (Inr p2, fs2)))"
proof -
  let ?ext = "lstrip_dot (lower (suffix input_path))"
  note st1 = convert_stages [of lib fs input_path fmt out_dir]
  note st2 = convert_stages [of lib fs input_path "lower fmt" out_dir]
  from resolve_output_lower [OF sup, of fs input_path out_dir]
  show ?thesis
  proof (elim disjE exE conjE)
    fix e
    assume r: "resolve_output fs input_path fmt out_dir = Inl e"
      "resolve_output fs input_path (lower fmt) out_dir = Inl e"
    from resolve_output_error [OF r(1)] have "e \<noteq> ConversionFailed"
      by simp
    with r sup ne st1 st2 show ?thesis
      by simp
  next
    fix p1 p2
    assume r: "resolve_output fs input_path fmt out_dir = Inr p1"
      "resolve_output fs input_path (lower fmt) out_dir = Inr p2"
      and pp: "parent p1 = parent p2" and nn: "lower (name p1) = lower (name p2)"
    show ?thesis
    proof (cases "mkdir_parents fs (parent p2)")
      case (Inl e)
      with r pp sup ne st1 st2
      have "convert lib fs input_path fmt out_dir = (Inl OSError, fs)
          \<and> convert lib fs input_path (lower fmt) out_dir = (Inl OSError, fs)"
        by simp
      then show ?thesis
        by blast
    next
      case (Inr fs1)
      show ?thesis
      proof (cases "get_conversion_method ?ext (lower fmt)")
        case None
        with Inr r pp sup ne st1 st2
        have "convert lib fs input_path fmt out_dir = (Inl PairNotSupported, fs1)
            \<and> convert lib fs input_path (lower fmt) out_dir = (Inl PairNotSupported, fs1)"
          by simp
        then show ?thesis
          by blast
      next
        case (Some rt)
        with Inr r pp sup ne st1 st2
        have "convert lib fs input_path fmt out_dir =
                (case image_to_image lib fs1 input_path p1 of
                   Inl (e, s) \<Rightarrow> (Inl e, s) | Inr fs2 \<Rightarrow> (Inr p1, fs2))
            \<and> convert lib fs input_path (lower fmt) out_dir =
                (case image_to_image lib fs1 input_path p2 of
                   Inl (e, s) \<Rightarrow> (Inl e, s) | Inr fs2 \<Rightarrow> (Inr p2, fs2))"
          by simp
        with r pp nn show ?thesis
          by blast
      qed
    qed
  qed
qed


text \<open>
  C8, as the claim states it, fails: the comparisons lower-case the format, the output
  path is built from the format as given. Converting \<open>a.png\<close> with \<open>JPG\<close> writes
  \<open>a.JPG\<close> and no \<open>a.jpg\<close>; with \<open>jpg\<close> it writes \<open>a.jpg\<close>.
\<close>

theorem upper_case_format_changes_output_path:
  "fst (convert example_lib example_fs (rel [''a.png'']) ''JPG'' None) = Inr (rel [''a.JPG''])
   \<and> fst (convert example_lib example_fs (rel [''a.png'']) ''jpg'' None) = Inr (rel [''a.jpg''])
   \<and> rel [''a.JPG''] \<noteq> rel [''a.jpg'']
   \<and> snd (convert example_lib example_fs (rel [''a.png'']) ''JPG'' None) (rel [''a.jpg'']) = None
   \<and> snd (convert example_lib example_fs (rel [''a.png'']) ''jpg'' None) (rel [''a.jpg''])
       = Some (File ''.jpg RGB'')"
  by code_simp

text \<open>
  C8, amended. For a format token and its lower-cased form: \<^verbatim>\<open>convert\<close> makes the same
  decision to reject (every error but a failed conversion is raised by both or by
  neither, leaving the same file system); with an existing regular file as output
  location the two calls are the same; when both succeed, the two output paths lie in the
  same directory, their names differ at most in case, and the same bytes are written. The
  name of the output file ends in a dot and the token as given. The input format of a
  path is that of the path with its name lower-cased (\<open>image.JPG\<close>, \<open>image.jpg\<close>).
\<close>

theorem format_token_case:
  "(\<forall>e s. e \<noteq> ConversionFailed \<longrightarrow>
      (convert lib fs input_path fmt out_dir = (Inl e, s))
        = (convert lib fs input_path (lower fmt) out_dir = (Inl e, s)))
   \<and> (\<forall>d. is_file fs d \<longrightarrow>
        convert lib fs input_path fmt (Some d) = convert lib fs input_path (lower fmt) (Some d))
   \<and> (\<forall>p1 s1 p2 s2.
        convert lib fs input_path fmt out_dir = (Inr p1, s1)
        \<and> convert lib fs input_path (lower fmt) out_dir = (Inr p2, s2) \<longrightarrow>
          parent p1 = parent p2 \<and> lower (name p1) = lower (name p2) \<and> s1 p1 = s2 p2)
   \<and> (\<forall>p s. convert lib fs input_path fmt None = (Inr p, s) \<longrightarrow>
          name p = stem input_path @ ''.'' @ fmt)
   \<and> (\<forall>d p s. \<not> is_file fs d \<and> convert lib fs input_path fmt (Some d) = (Inr p, s) \<longrightarrow>
          (\<exists>l. name p = l @ ''.'' @ fmt))
   \<and> lstrip_dot (lower (suffix \<lparr>root = r, names = ns @ [lower n]\<rparr>))
       = lstrip_dot (lower (suffix \<lparr>root = r, names = ns @ [n]\<rparr>))"
proof -
  let ?ext = "lstrip_dot (lower (suffix input_path))"
  have rej: "(convert lib fs input_path fmt od = (Inl e, s))
        = (convert lib fs input_path (lower fmt) od = (Inl e, s))"
    if e: "e \<noteq> ConversionFailed" for e s od
  proof (cases "lower fmt \<in> supported_formats \<and> ?ext \<noteq> lower fmt")
    case False
    then show ?thesis
      by (auto simp: convert_stages)
  next
    case True
    from convert_lower_cases [OF conjunct1 [OF True] conjunct2 [OF True], of lib fs od]
    show ?thesis
    proof (elim disjE exE conjE)
      fix p1 p2 fs1
      assume c1: "convert lib fs input_path fmt od =
                (case image_to_image lib fs1 input_path p1 of
                   Inl (e, s) \<Rightarrow> (Inl e, s) | Inr fs2 \<Rightarrow> (Inr p1, fs2))"
        and c2: "convert lib fs input_path (lower fmt) od =
                (case image_to_image lib fs1 input_path p2 of
                   Inl (e, s) \<Rightarrow> (Inl e, s) | Inr fs2 \<Rightarrow> (Inr p2, fs2))"
      have "convert lib fs input_path fmt od \<noteq> (Inl e, s)"
        using e c1 by (auto split: sum.splits dest: image_to_image_error)
      moreover have "convert lib fs input_path (lower fmt) od \<noteq> (Inl e, s)"
        using e c2 by (auto split: sum.splits dest: image_to_image_error)
      ultimately show ?thesis
        by simp
    qed simp_all
  qed
  have onfile: "convert lib fs input_path fmt (Some d) = convert lib fs input_path (lower fmt) (Some d)"
    if "is_file fs d" for d
    using that by (simp add: convert_stages resolve_output_def cong: sum.case_cong option.case_cong)
  have both: "parent p1 = parent p2 \<and> lower (name p1) = lower (name p2) \<and> s1 p1 = s2 p2"
    if a: "convert lib fs input_path fmt out_dir = (Inr p1, s1)"
      and b: "convert lib fs input_path (lower fmt) out_dir = (Inr p2, s2)" for p1 s1 p2 s2
  proof -
    from a have t: "lower fmt \<in> supported_formats" "?ext \<noteq> lower fmt"
      by (auto simp: convert_stages split: if_splits)
    from convert_lower_cases [OF t, of lib fs out_dir] a b
    obtain q1 q2 fs1 where
      pp: "parent q1 = parent q2" and nn: "lower (name q1) = lower (name q2)"
      and c1: "(case image_to_image lib fs1 input_path q1 of
                   Inl (e, s) \<Rightarrow> (Inl e, s) | Inr fs2 \<Rightarrow> (Inr q1, fs2)) = (Inr p1, s1)"
      and c2: "(case image_to_image lib fs1 input_path q2 of
                   Inl (e, s) \<Rightarrow> (Inl e, s) | Inr fs2 \<Rightarrow> (Inr q2, fs2)) = (Inr p2, s2)"
      by auto
    from c1 have i1: "image_to_image lib fs1 input_path p1 = Inr s1" and q1: "q1 = p1"
      by (auto split: sum.splits)
    from c2 have i2: "image_to_image lib fs1 input_path p2 = Inr s2" and q2: "q2 = p2"
      by (auto split: sum.splits)
    from i1 obtain img where op: "Image_open lib fs1 input_path = Some img"
      by (auto simp: image_to_image_def split: option.splits)
    from image_to_image_written [OF op i1] obtain b1 where
      e1: "encode lib (lower (splitext_ext (name p1))) (normalise lib p1 img) = Some b1"
      and w1: "s1 = fs1(p1 \<mapsto> File b1)"
      by blast
    from image_to_image_written [OF op i2] obtain b2 where
      e2: "encode lib (lower (splitext_ext (name p2))) (normalise lib p2 img) = Some b2"
      and w2: "s2 = fs1(p2 \<mapsto> File b2)"
      by blast
    from nn q1 q2 have nn': "lower (name p1) = lower (name p2)"
      by simp
    from e1 e2 lower_splitext_cong [OF nn'] normalise_cong [OF lower_suffix_cong [OF nn'], of lib img]
    have "b1 = b2"
      by simp
    with w1 w2 pp nn' q1 q2 show ?thesis
      by simp
  qed
  have none: "name p = stem input_path @ ''.'' @ fmt"
    if "convert lib fs input_path fmt None = (Inr p, s)" for p s
    using that
    by (auto simp: convert_stages resolve_output_def with_suffix_def name_def
        split: if_splits sum.splits option.splits)
  have dir: "\<exists>l. name p = l @ ''.'' @ fmt"
    if nf: "\<not> is_file fs d" and c: "convert lib fs input_path fmt (Some d) = (Inr p, s)" for d p s
  proof -
    from c have t: "lower fmt \<in> supported_formats"
      and r: "resolve_output fs input_path fmt (Some d) = Inr p"
      by (auto simp: convert_stages split: if_splits sum.splits option.splits)
    from supported_no_slash [OF t] joinpath_with_extension [of d "stem input_path"]
    obtain r' ns' l where
      "joinpath d (stem input_path @ ''.'' @ fmt) = \<lparr>root = r', names = ns' @ [l @ ''.'' @ fmt]\<rparr>"
      by blast
    with r nf have "name p = l @ ''.'' @ fmt"
      by (simp add: resolve_output_def name_def)
    then show ?thesis
      by blast
  qed
  have inp: "lstrip_dot (lower (suffix \<lparr>root = r, names = ns @ [lower n]\<rparr>))
       = lstrip_dot (lower (suffix \<lparr>root = r, names = ns @ [n]\<rparr>))"
    by (simp add: suffix_lower)
  have A: "\<forall>e s. e \<noteq> ConversionFailed \<longrightarrow>
      (convert lib fs input_path fmt out_dir = (Inl e, s))
        = (convert lib fs input_path (lower fmt) out_dir = (Inl e, s))"
    using rej by blast
  have B: "\<forall>d. is_file fs d \<longrightarrow>
        convert lib fs input_path fmt (Some d) = convert lib fs input_path (lower fmt) (Some d)"
    using onfile by blast
  have C: "\<forall>p1 s1 p2 s2.
        convert lib fs input_path fmt out_dir = (Inr p1, s1)
        \<and> convert lib fs input_path (lower fmt) out_dir = (Inr p2, s2) \<longrightarrow>
          parent p1 = parent p2 \<and> lower (name p1) = lower (name p2) \<and> s1 p1 = s2 p2"
    using both by blast
  have D: "\<forall>p s. convert lib fs input_path fmt None = (Inr p, s) \<longrightarrow>
          name p = stem input_path @ ''.'' @ fmt"
    using none by blast
  have E: "\<forall>d p s. \<not> is_file fs d \<and> convert lib fs input_path fmt (Some d) = (Inr p, s) \<longrightarrow>
          (\<exists>l. name p = l @ ''.'' @ fmt)"
    using dir by blast
  show ?thesis
    by (intro conjI) (rule A B C D E inp)+
qed


theorem format_token_case_witness:
  "lower ''JPG'' = ''jpg''
   \<and> fst (convert example_lib example_fs (rel [''a.png'']) ''JPG'' None) = Inr (rel [''a.JPG''])
   \<and> fst (convert example_lib example_fs (rel [''a.png'']) ''jpg'' None) = Inr (rel [''a.jpg''])
   \<and> snd (convert example_lib example_fs (rel [''a.png'']) ''JPG'' None) (rel [''a.JPG''])
       = snd (convert example_lib example_fs (rel [''a.png'']) ''jpg'' None) (rel [''a.jpg''])
   \<and> name (rel [''a.JPG'']) = stem (rel [''a.png'']) @ ''.'' @ ''JPG''
   \<and> convert example_lib example_fs (rel [''a.png'']) ''PNG'' None = (Inl SameFormat, example_fs)
   \<and> is_file example_fs (rel [''old.jpg''])
   \<and> convert example_lib example_fs (rel [''a.png'']) ''JPG'' (Some (rel [''old.jpg'']))
       = convert example_lib example_fs (rel [''a.png'']) ''jpg'' (Some (rel [''old.jpg'']))
   \<and> lstrip_dot (lower (suffix (rel [''image.JPG''])))
       = lstrip_dot (lower (suffix (rel [''image.jpg''])))"
proof -
  let ?cJ = "convert example_lib example_fs (rel [''a.png'']) ''JPG'' None"
  let ?cj = "convert example_lib example_fs (rel [''a.png'']) ''jpg'' None"
  have lJ: "lower ''JPG'' = ''jpg''"
    by code_simp
  have lP: "lower ''PNG'' = ''png''"
    by code_simp
  have li: "lower ''image.JPG'' = ''image.jpg''"
    by code_simp
  have gJ: "fst ?cJ = Inr (rel [''a.JPG''])"
    by code_simp
  have gj: "fst ?cj = Inr (rel [''a.jpg''])"
    by code_simp
  have eJ: "?cJ = (Inr (rel [''a.JPG'']), snd ?cJ)"
    using gJ by (simp add: prod_eq_iff)
  have ej: "?cj = (Inr (rel [''a.jpg'']), snd ?cj)"
    using gj by (simp add: prod_eq_iff)
  have sp: "lower ''png'' \<in> supported_formats \<and> lstrip_dot (lower (suffix (rel [''a.png'']))) = lower ''png''"
    by code_simp
  then have same: "convert example_lib example_fs (rel [''a.png'']) ''png'' None = (Inl SameFormat, example_fs)"
    by (simp add: convert_stages)
  have f: "is_file example_fs (rel [''old.jpg''])"
    by code_simp
  note t1 = format_token_case [of example_lib example_fs "rel [''a.png'']" "''JPG''" None "[]" "[]" "''image.JPG''"]
  note t2 = format_token_case [of example_lib example_fs "rel [''a.png'']" "''PNG''" None "[]" "[]" "''image.JPG''"]
  from t1 have C: "\<forall>p1 s1 p2 s2.
        ?cJ = (Inr p1, s1)
        \<and> convert example_lib example_fs (rel [''a.png'']) (lower ''JPG'') None = (Inr p2, s2) \<longrightarrow>
          parent p1 = parent p2 \<and> lower (name p1) = lower (name p2) \<and> s1 p1 = s2 p2"
    by (elim conjE)
  from C [rule_format, of "rel [''a.JPG'']" "snd ?cJ" "rel [''a.jpg'']" "snd ?cj"] eJ ej lJ
  have same_bytes: "snd ?cJ (rel [''a.JPG'']) = snd ?cj (rel [''a.jpg''])"
    by simp
  from t1 have D: "\<forall>p s. ?cJ = (Inr p, s) \<longrightarrow> name p = stem (rel [''a.png'']) @ ''.'' @ ''JPG''"
    by (elim conjE)
  from D [rule_format, OF eJ] have nm: "name (rel [''a.JPG'']) = stem (rel [''a.png'']) @ ''.'' @ ''JPG''" .
  from t2 have A: "\<forall>e s. e \<noteq> ConversionFailed \<longrightarrow>
      (convert example_lib example_fs (rel [''a.png'']) ''PNG'' None = (Inl e, s))
        = (convert example_lib example_fs (rel [''a.png'']) (lower ''PNG'') None = (Inl e, s))"
    by (elim conjE)
  from A [rule_format, of SameFormat example_fs] same lP
  have up: "convert example_lib example_fs (rel [''a.png'']) ''PNG'' None = (Inl SameFormat, example_fs)"
    by simp
  from t1 have B: "\<forall>d. is_file example_fs d \<longrightarrow>
        convert example_lib example_fs (rel [''a.png'']) ''JPG'' (Some d)
          = convert example_lib example_fs (rel [''a.png'']) (lower ''JPG'') (Some d)"
    by (elim conjE)
  from B [rule_format, OF f] lJ
  have onf: "convert example_lib example_fs (rel [''a.png'']) ''JPG'' (Some (rel [''old.jpg'']))
       = convert example_lib example_fs (rel [''a.png'']) ''jpg'' (Some (rel [''old.jpg'']))"
    by simp
  from t1 have F: "lstrip_dot (lower (suffix \<lparr>root = [], names = [] @ [lower ''image.JPG'']\<rparr>))
       = lstrip_dot (lower (suffix \<lparr>root = [], names = [] @ [''image.JPG'']\<rparr>))"
    by (elim conjE)
  with li have inp: "lstrip_dot (lower (suffix (rel [''image.JPG''])))
       = lstrip_dot (lower (suffix (rel [''image.jpg''])))"
    by (simp add: rel_def)
  from lJ gJ gj same_bytes nm up f onf inp show ?thesis
    by (intro conjI)
qed


section \<open>Failures inside a batch\<close>

text \<open>
  What a call leaves behind. \<^verbatim>\<open>img.save\<close> leaves the file system as it was or with
  the output path written, in whole or in part; so does \<^verbatim>\<open>_image_to_image\<close>; a call
  of \<^verbatim>\<open>convert\<close> leaves the file system as it was, or with the parent directories of
  the output path made and, possibly, the output path written.
\<close>

lemma Image_save_state:
  "snd (Image_save lib fs p img) = fs
   \<or> (\<exists>bytes. write_file fs p bytes = Some (snd (Image_save lib fs p img)))"
proof (cases "write_file fs p []")
  case None
  then show ?thesis
    by (simp add: Image_save_def Let_def)
next
  case (Some fs0)
  then have nd: "\<not> is_dir fs p" and pd: "is_dir fs (parent p)" and f0: "fs0 = fs(p \<mapsto> File [])"
    by (auto simp: write_file_def split: if_splits)
  from nd pd have w: "write_file fs p bytes = Some (fs(p \<mapsto> File bytes))" for bytes
    by (simp add: write_file_def)
  from nd have "names p \<noteq> []"
    by (auto simp: is_dir_def node_at_def)
  then have np: "fs p = None" if "\<not> path_exists fs p"
    using that by (auto simp: path_exists_def node_at_def split: option.splits)
  have "snd (Image_save lib fs p img) = fs
      \<or> (\<exists>bytes. snd (Image_save lib fs p img) = fs(p \<mapsto> File bytes))"
    using Some f0 np
    by (auto simp: Image_save_def Let_def fun_upd_idem_iff split: option.splits)
  with w show ?thesis
    by auto
qed

lemma image_to_image_state:
  "\<exists>s. (image_to_image lib fs ip op = Inr s \<or> image_to_image lib fs ip op = Inl (ConversionFailed, s))
       \<and> (s = fs \<or> (\<exists>bytes. write_file fs op bytes = Some s))"
proof (cases "Image_open lib fs ip")
  case None
  then show ?thesis
    by (simp add: image_to_image_def)
next
  case (Some img)
  obtain saved s where sv: "Image_save lib fs op (normalise lib op img) = (saved, s)"
    by (cases "Image_save lib fs op (normalise lib op img)")
  with Image_save_state [of lib fs op "normalise lib op img"]
  have "s = fs \<or> (\<exists>bytes. write_file fs op bytes = Some s)"
    by simp
  with Some sv show ?thesis
    by (auto simp: image_to_image_def)
qed

lemma convert_state:
  "snd (convert lib fs g fmt out) = fs
   \<or> (\<exists>p fs1. resolve_output fs g fmt out = Inr p \<and> mkdir_parents fs (parent p) = Inr fs1
         \<and> (snd (convert lib fs g fmt out) = fs1
            \<or> (\<exists>bytes. write_file fs1 p bytes = Some (snd (convert lib fs g fmt out)))))"
proof (cases "\<exists>p fs1. resolve_output fs g fmt out = Inr p \<and> mkdir_parents fs (parent p) = Inr fs1")
  case False
  then have "snd (convert lib fs g fmt out) = fs"
    by (auto simp: convert_stages split: sum.splits option.splits)
  then show ?thesis
    by simp
next
  case True
  then obtain p fs1 where r: "resolve_output fs g fmt out = Inr p"
    and mk: "mkdir_parents fs (parent p) = Inr fs1"
    by blast
  from image_to_image_state [of lib fs1 g p] obtain s where
    i: "image_to_image lib fs1 g p = Inr s \<or> image_to_image lib fs1 g p = Inl (ConversionFailed, s)"
    and w: "s = fs1 \<or> (\<exists>bytes. write_file fs1 p bytes = Some s)"
    by blast
  have "snd (convert lib fs g fmt out) = fs \<or> snd (convert lib fs g fmt out) = fs1
      \<or> snd (convert lib fs g fmt out) = s"
    using r mk i
    by (auto simp: convert_stages split: option.splits)
  with w r mk show ?thesis
    by auto
qed

text \<open>
  So a call changes its own output path at most: every other entry that existed is as it
  was, and whatever else is new is a directory.
\<close>

lemma convert_frame:
  "snd (convert lib fs g fmt out) q = fs q
   \<or> (fs q = None \<and> snd (convert lib fs g fmt out) q = Some Dir)
   \<or> resolve_output fs g fmt out = Inr q"
proof -
  from convert_state [of lib fs g fmt out] show ?thesis
  proof (elim disjE exE conjE)
    assume "snd (convert lib fs g fmt out) = fs"
    then show ?thesis
      by simp
  next
    fix p fs1
    assume mk: "mkdir_parents fs (parent p) = Inr fs1" and "snd (convert lib fs g fmt out) = fs1"
    with mkdir_parents_adds_dir [OF mk, of q] show ?thesis
      by auto
  next
    fix p fs1 bytes
    assume r: "resolve_output fs g fmt out = Inr p"
      and mk: "mkdir_parents fs (parent p) = Inr fs1"
      and w: "write_file fs1 p bytes = Some (snd (convert lib fs g fmt out))"
    from w have "snd (convert lib fs g fmt out) = fs1(p \<mapsto> File bytes)"
      by (auto simp: write_file_def split: if_splits)
    with r mkdir_parents_adds_dir [OF mk, of q] show ?thesis
      by (cases "q = p") auto
  qed
qed

text \<open>
  A failure raised before the image is saved (every error but a failed conversion, or a
  failed conversion of a file that cannot be opened) writes no file: it leaves the file
  system as it was, or with the parent directories of the output path made.
\<close>

lemma convert_presave_failure:
  assumes c: "convert lib fs f fmt out = (Inl e, fs1)"
    and pre: "e \<noteq> ConversionFailed \<or> Image_open lib fs f = None"
  shows "fs1 = fs
         \<or> (\<exists>p. lower fmt \<in> supported_formats \<and> resolve_output fs f fmt out = Inr p
               \<and> mkdir_parents fs (parent p) = Inr fs1)"
proof (cases "\<exists>p s. lower fmt \<in> supported_formats \<and> lstrip_dot (lower (suffix f)) \<noteq> lower fmt
                \<and> resolve_output fs f fmt out = Inr p \<and> mkdir_parents fs (parent p) = Inr s")
  case False
  with c have "fs1 = fs"
    by (auto simp: convert_stages split: if_splits sum.splits option.splits)
  then show ?thesis
    by simp
next
  case True
  then obtain p s where sup: "lower fmt \<in> supported_formats"
    and ne: "lstrip_dot (lower (suffix f)) \<noteq> lower fmt"
    and r: "resolve_output fs f fmt out = Inr p"
    and mk: "mkdir_parents fs (parent p) = Inr s"
    by blast
  have "fs1 = s"
  proof (cases "get_conversion_method (lstrip_dot (lower (suffix f))) (lower fmt)")
    case None
    with c sup ne r mk show ?thesis
      by (simp add: convert_stages)
  next
    case (Some rt)
    with c sup ne r mk have i: "image_to_image lib s f p = Inl (e, fs1)"
      by (auto simp: convert_stages split: sum.splits)
    from image_to_image_error [OF i] pre have "Image_open lib fs f = None"
      by simp
    with mkdir_parents_open [OF mk, of lib f] have "Image_open lib s f = None"
      by simp
    with i show ?thesis
      by (simp add: image_to_image_def)
  qed
  with sup r mk show ?thesis
    by blast
qed

lemma convert_failure_frame:
  assumes c: "convert lib fs f fmt out = (Inl e, fs1)"
    and pre: "e \<noteq> ConversionFailed \<or> Image_open lib fs f = None"
  shows "fs1 q = fs q \<or> (fs q = None \<and> fs1 q = Some Dir)"
proof -
  from convert_presave_failure [OF c pre] show ?thesis
  proof (elim disjE exE conjE)
    assume "fs1 = fs"
    then show ?thesis
      by simp
  next
    fix p
    assume "mkdir_parents fs (parent p) = Inr fs1"
    from mkdir_parents_adds_dir [OF this, of q] show ?thesis .
  qed
qed

text \<open>The loop at the \<open>i\<close>-th file: the files before it, its own call, the files after it.\<close>

lemma batch_loop_step:
  assumes "i < length files"
  shows "batch_loop lib fs files fmt out 0 =
     (case batch_loop lib fs (take i files) fmt out 0 of
        (n1, lg1, s1) \<Rightarrow>
          (case convert lib s1 (files ! i) fmt out of
             (r, s2) \<Rightarrow>
               (case batch_loop lib s2 (drop (Suc i) files) fmt out (if isl r then n1 else n1 + 1) of
                  (n2, lg2, s3) \<Rightarrow> (n2, lg1 @ (files ! i, r) # lg2, s3))))"
proof -
  from assms have "files = take i files @ files ! i # drop (Suc i) files"
    by (simp add: id_take_nth_drop)
  then have "batch_loop lib fs files fmt out 0
      = batch_loop lib fs (take i files @ files ! i # drop (Suc i) files) fmt out 0"
    by simp
  also have "\<dots> =
     (case batch_loop lib fs (take i files) fmt out 0 of
        (n1, lg1, s1) \<Rightarrow>
          (case convert lib s1 (files ! i) fmt out of
             (r, s2) \<Rightarrow>
               (case batch_loop lib s2 (drop (Suc i) files) fmt out (if isl r then n1 else n1 + 1) of
                  (n2, lg2, s3) \<Rightarrow> (n2, lg1 @ (files ! i, r) # lg2, s3))))"
    unfolding batch_loop_append
    by (auto split: prod.splits sum.splits)
  finally show ?thesis .
qed

lemma batch_loop_prefix:
  assumes "i < length files"
  shows "batch_loop lib fs (take (Suc i) files) fmt out 0 =
     (case batch_loop lib fs (take i files) fmt out 0 of
        (n1, lg1, s1) \<Rightarrow>
          (case convert lib s1 (files ! i) fmt out of
             (r, s2) \<Rightarrow> (if isl r then n1 else n1 + 1, lg1 @ [(files ! i, r)], s2)))"
proof -
  from assms have "take (Suc i) files = take i files @ [files ! i]"
    by (simp add: take_Suc_conv_app_nth)
  then show ?thesis
    by (auto simp: batch_loop_append split: prod.splits sum.splits)
qed

text \<open>
  What a failure raised before the save can leave behind. Making directories twice is
  making them once; in a tree, making the parents of an existing entry changes nothing.
  So such a call leaves the file system as it was or, when the output location is given
  and is not a file, with that location made a directory, which every later call makes
  anyway: the later calls have the same outcomes either way.
\<close>

lemma split_on_none: "c \<notin> set s \<Longrightarrow> split_on c s = [s]"
  by (induction s) (auto split: list.splits)

lemma joinpath_single:
  assumes "CHR ''/'' \<notin> set s" "fmt \<noteq> []" "CHR ''/'' \<notin> set fmt"
  shows "joinpath d (s @ ''.'' @ fmt) = \<lparr>root = root d, names = names d @ [s @ ''.'' @ fmt]\<rparr>"
proof -
  from assms(1) have sr: "splitroot s = ([], s)"
    by (cases s) (auto simp: splitroot_def)
  from Path_with_extension [OF assms(2) assms(3), of s] sr split_on_none [OF assms(1)]
  have "Path (s @ ''.'' @ fmt) = \<lparr>root = [], names = [s @ ''.'' @ fmt]\<rparr>"
    by simp
  then show ?thesis
    by (simp add: joinpath_def)
qed

lemma stem_no_slash: "CHR ''/'' \<notin> set (name p) \<Longrightarrow> CHR ''/'' \<notin> set (stem p)"
  by (auto simp: stem_def Let_def split: option.splits if_splits dest: in_set_takeD)

lemma mkdir_parents_idem:
  assumes "mkdir_parents fs p = Inr fs1"
  shows "mkdir_parents fs1 p = Inr fs1"
proof -
  note eq = mkdir_parents.simps [of fs p]
  note eq1 = mkdir_parents.simps [of fs1 p]
  have already: "mkdir_parents fs1 p = Inr fs1"
    if "node_at fs1 (parent p) = Some Dir" "node_at fs1 p = Some Dir"
    using that eq1 by (simp add: os_mkdir_def is_dir_def)
  have made: "node_at (fs0(p \<mapsto> Dir)) (parent p) = Some Dir \<and> node_at (fs0(p \<mapsto> Dir)) p = Some Dir"
    if "node_at fs0 (parent p) = Some Dir" "node_at fs0 p = None" for fs0
  proof -
    from that(2) have "names p \<noteq> []"
      by (auto simp: node_at_def split: if_splits)
    then have "butlast (names p) \<noteq> names p"
      by (metis append_butlast_last_id append_self_conv not_Cons_self2)
    then have "parent p \<noteq> p"
      by (auto simp: parent_def dest: arg_cong [where f = names])
    with that show ?thesis
      by (auto simp: node_at_def)
  qed
  have ok: "mkdir_parents fs1 p = Inr fs1" if "os_mkdir fs0 p = Inr fs1" for fs0
  proof -
    from that have "node_at fs0 (parent p) = Some Dir" "node_at fs0 p = None" "fs1 = fs0(p \<mapsto> Dir)"
      by (auto simp: os_mkdir_def split: option.splits node.splits)
    with made [of fs0] already show ?thesis
      by simp
  qed
  have stay: "mkdir_parents fs0 p = Inr fs0"
    if "os_mkdir fs0 p = Inl e" "e \<noteq> ENOENT" "is_dir fs0 p" for fs0 e
    using that mkdir_parents.simps [of fs0 p] by simp
  show ?thesis
  proof (cases "os_mkdir fs p")
    case (Inr fs2)
    with assms eq have "fs2 = fs1"
      by simp
    with Inr ok show ?thesis
      by blast
  next
    case (Inl e)
    show ?thesis
    proof (cases "e = ENOENT")
      case False
      with Inl assms eq have "fs1 = fs" "is_dir fs p"
        by (auto split: if_splits)
      with stay [OF Inl False] show ?thesis
        by simp
    next
      case True
      with Inl assms eq obtain fsa where b: "mkdir_exist_ok fsa p = Inr fs1"
        by (auto split: if_splits sum.splits)
      show ?thesis
      proof (cases "os_mkdir fsa p")
        case (Inr fs2)
        with b have "fs2 = fs1"
          by (simp add: mkdir_exist_ok_def)
        with Inr ok show ?thesis
          by blast
      next
        case il: (Inl e')
        with b have "e' \<noteq> ENOENT" "is_dir fsa p" "fs1 = fsa"
          by (auto simp: mkdir_exist_ok_def split: if_splits)
        with stay [OF il] show ?thesis
          by simp
      qed
    qed
  qed
qed


lemma mkdir_parents_tree_dir:
  assumes tree: "tree fs"
    and d: "is_dir fs p"
  shows "mkdir_parents fs p = Inr fs"
proof -
  from d have n: "node_at fs p = Some Dir"
    by (auto simp: is_dir_def split: option.splits node.splits)
  have "node_at fs (parent p) = Some Dir"
  proof (cases "names p = []")
    case True
    then show ?thesis
      by (simp add: node_at_def parent_def)
  next
    case False
    with n have "fs p \<noteq> None"
      by (simp add: node_at_def)
    with tree False have "is_dir fs (parent p)"
      by (simp add: tree_def)
    then show ?thesis
      by (auto simp: is_dir_def split: option.splits node.splits)
  qed
  with n d show ?thesis
    by (simp add: mkdir_parents.simps [of fs p] os_mkdir_def)
qed

lemma parent_joinpath:
  assumes "CHR ''/'' \<notin> set s" "fmt \<noteq> []" "CHR ''/'' \<notin> set fmt"
  shows "parent (joinpath d (s @ ''.'' @ fmt)) = d"
  by (simp add: joinpath_single [OF assms, simplified] parent_def)

lemma convert_failure_related:
  assumes tree: "tree fs"
    and ex: "path_exists fs f"
    and nm: "CHR ''/'' \<notin> set (name f)"
    and c: "convert lib fs f fmt out = (Inl e, fs1)"
    and pre: "e \<noteq> ConversionFailed \<or> Image_open lib fs f = None"
  shows "fs1 = fs \<or> (\<exists>d. out = Some d \<and> \<not> is_file fs d \<and> mkdir_parents fs d = Inr fs1)"
proof (cases "\<exists>p. lower fmt \<in> supported_formats \<and> resolve_output fs f fmt out = Inr p
                   \<and> mkdir_parents fs (parent p) = Inr fs1")
  case False
  with convert_presave_failure [OF c pre] have "fs1 = fs"
    by blast
  then show ?thesis
    by simp
next
  case True
  then obtain p where sup: "lower fmt \<in> supported_formats"
    and r: "resolve_output fs f fmt out = Inr p"
    and mk: "mkdir_parents fs (parent p) = Inr fs1"
    by blast
  from supported_no_slash [OF sup] have fm: "fmt \<noteq> []" "CHR ''/'' \<notin> set fmt"
    by simp_all
  show ?thesis
  proof (cases out)
    case None
    with r have w: "with_suffix f (''.'' @ fmt) = Inr p"
      by (simp add: resolve_output_def)
    then have nf: "names f \<noteq> []" and pp: "parent p = parent f"
      by (auto simp: with_suffix_def name_def parent_def split: if_splits)
    from ex nf have "fs f \<noteq> None"
      by (auto simp: path_exists_def node_at_def split: option.splits)
    with tree nf have "is_dir fs (parent f)"
      by (simp add: tree_def)
    from mkdir_parents_tree_dir [OF tree this] mk pp show ?thesis
      by simp
  next
    case (Some d)
    show ?thesis
    proof (cases "is_file fs d")
      case True
      with Some r have pd: "p = d"
        by (simp add: resolve_output_def)
      from True have nd: "names d \<noteq> []" "fs d \<noteq> None"
        by (auto simp: is_file_def node_at_def split: if_splits option.splits)
      with tree have "is_dir fs (parent d)"
        by (simp add: tree_def)
      from mkdir_parents_tree_dir [OF tree this] mk pd show ?thesis
        by simp
    next
      case False
      with Some r have "p = joinpath d (stem f @ ''.'' @ fmt)"
        by (simp add: resolve_output_def)
      with parent_joinpath [OF stem_no_slash [OF nm] fm] have "parent p = d"
        by simp
      with mk Some False show ?thesis
        by simp
    qed
  qed
qed

lemma convert_related_step:
  assumes R: "a = b \<or> (\<exists>d. out = Some d \<and> \<not> is_file b d \<and> mkdir_parents b d = Inr a)"
    and nm: "CHR ''/'' \<notin> set (name g)"
  shows "fst (convert lib a g fmt out) = fst (convert lib b g fmt out)
         \<and> (snd (convert lib a g fmt out) = snd (convert lib b g fmt out)
            \<or> (\<exists>d. out = Some d \<and> \<not> is_file (snd (convert lib b g fmt out)) d
                  \<and> mkdir_parents (snd (convert lib b g fmt out)) d
                      = Inr (snd (convert lib a g fmt out))))"
proof (cases "a = b")
  case True
  then show ?thesis
    by simp
next
  case False
  with R obtain d where o: "out = Some d" and nf: "\<not> is_file b d" and mk: "mkdir_parents b d = Inr a"
    by blast
  from mkdir_parents_is_file [OF mk] nf have nfa: "\<not> is_file a d"
    by simp
  show ?thesis
  proof (cases "lower fmt \<in> supported_formats \<and> lstrip_dot (lower (suffix g)) \<noteq> lower fmt")
    case False
    then have "\<exists>e. \<forall>s. convert lib s g fmt out = (Inl e, s)"
      by (auto simp: convert_stages)
    then obtain e where "convert lib a g fmt out = (Inl e, a)" "convert lib b g fmt out = (Inl e, b)"
      by blast
    with o nf mk show ?thesis
      by simp
  next
    case True
    from supported_no_slash [OF conjunct1 [OF True]] have fm: "fmt \<noteq> []" "CHR ''/'' \<notin> set fmt"
      by simp_all
    let ?p = "joinpath d (stem g @ ''.'' @ fmt)"
    from o nf nfa have ra: "resolve_output a g fmt out = Inr ?p" and rb: "resolve_output b g fmt out = Inr ?p"
      by (simp_all add: resolve_output_def)
    from parent_joinpath [OF stem_no_slash [OF nm] fm] have pp: "parent ?p = d"
      by simp
    from mkdir_parents_idem [OF mk] have mka: "mkdir_parents a d = Inr a" .
    from True ra rb pp mk mka have "convert lib a g fmt out = convert lib b g fmt out"
      by (simp add: convert_stages)
    then show ?thesis
      by simp
  qed
qed

lemma batch_loop_related:
  assumes "a = b \<or> (\<exists>d. out = Some d \<and> \<not> is_file b d \<and> mkdir_parents b d = Inr a)"
    and "\<forall>g \<in> set ys. CHR ''/'' \<notin> set (name g)"
  shows "fst (batch_loop lib a ys fmt out n0) = fst (batch_loop lib b ys fmt out n0)
         \<and> fst (snd (batch_loop lib a ys fmt out n0)) = fst (snd (batch_loop lib b ys fmt out n0))"
  using assms
proof (induction ys arbitrary: a b n0)
  case Nil
  then show ?case
    by simp
next
  case (Cons g ys)
  obtain ra sa where ca: "convert lib a g fmt out = (ra, sa)"
    by (cases "convert lib a g fmt out")
  obtain rb sb where cb: "convert lib b g fmt out = (rb, sb)"
    by (cases "convert lib b g fmt out")
  from Cons.prems(2) have nm: "CHR ''/'' \<notin> set (name g)" and rest: "\<forall>g \<in> set ys. CHR ''/'' \<notin> set (name g)"
    by simp_all
  from convert_related_step [OF Cons.prems(1) nm, of lib fmt] ca cb
  have r: "ra = rb" and R: "sa = sb \<or> (\<exists>d. out = Some d \<and> \<not> is_file sb d \<and> mkdir_parents sb d = Inr sa)"
    by simp_all
  show ?case
  proof (cases rb)
    case (Inl e)
    with ca cb r Cons.IH [OF R rest, of n0] show ?thesis
      by (auto split: prod.splits)
  next
    case (Inr q)
    with ca cb r Cons.IH [OF R rest, of "n0 + 1"] show ?thesis
      by (auto split: prod.splits)
  qed
qed

lemma parent_neq: "names p \<noteq> [] \<Longrightarrow> parent p \<noteq> p"
proof -
  assume "names p \<noteq> []"
  then have "butlast (names p) \<noteq> names p"
    by (metis append_butlast_last_id append_self_conv not_Cons_self2)
  then show ?thesis
    by (auto simp: parent_def dest: arg_cong [where f = names])
qed

lemma tree_add_dir:
  assumes t: "tree fs" and pd: "node_at fs (parent p) = Some Dir" and np: "node_at fs p = None"
  shows "tree (fs(p \<mapsto> Dir))"
proof -
  from np have n: "names p \<noteq> []"
    by (auto simp: node_at_def split: if_splits)
  have "is_dir (fs(p \<mapsto> Dir)) (parent q)" if q: "names q \<noteq> []" "(fs(p \<mapsto> Dir)) q \<noteq> None" for q
  proof (cases "q = p")
    case True
    with pd parent_neq [OF n] show ?thesis
      by (auto simp: is_dir_def node_at_def)
  next
    case False
    with q t have "is_dir fs (parent q)"
      by (simp add: tree_def)
    then show ?thesis
      by (auto simp: is_dir_def node_at_def split: option.splits node.splits if_splits)
  qed
  then show ?thesis
    by (simp add: tree_def)
qed

lemma tree_os_mkdir: "tree fs \<Longrightarrow> os_mkdir fs p = Inr fs' \<Longrightarrow> tree fs'"
  by (auto simp: os_mkdir_def split: option.splits node.splits intro: tree_add_dir)

lemma tree_mkdir_exist_ok: "tree fs \<Longrightarrow> mkdir_exist_ok fs p = Inr fs' \<Longrightarrow> tree fs'"
  by (auto simp: mkdir_exist_ok_def split: sum.splits if_splits intro: tree_os_mkdir)

lemma tree_mkdir_parents: "tree fs \<Longrightarrow> mkdir_parents fs p = Inr fs' \<Longrightarrow> tree fs'"
proof (induction fs p arbitrary: fs' rule: mkdir_parents.induct)
  case (1 fs p)
  note eq = mkdir_parents.simps [of fs p]
  show ?case
  proof (cases "os_mkdir fs p")
    case (Inr fs1)
    with "1.prems" eq have "fs' = fs1"
      by simp
    with Inr "1.prems"(1) show ?thesis
      using tree_os_mkdir by blast
  next
    case (Inl e)
    show ?thesis
    proof (cases "e = ENOENT")
      case False
      with Inl "1.prems" eq have "fs' = fs"
        by (simp split: if_splits)
      with "1.prems"(1) show ?thesis by simp
    next
      case True
      with Inl "1.prems" eq have np: "parent p \<noteq> p"
        by (auto split: if_splits)
      from Inl True np eq have eq2:
        "mkdir_parents fs p =
           (case mkdir_parents fs (parent p) of Inl e' \<Rightarrow> Inl e' | Inr fs1 \<Rightarrow> mkdir_exist_ok fs1 p)"
        by simp
      with "1.prems" obtain fs1 where
        a: "mkdir_parents fs (parent p) = Inr fs1" and b: "mkdir_exist_ok fs1 p = Inr fs'"
        by (auto split: sum.splits)
      from "1.IH" [OF Inl True np "1.prems"(1) a] have "tree fs1" .
      from tree_mkdir_exist_ok [OF this b] show ?thesis .
    qed
  qed
qed

lemma tree_write_file:
  assumes t: "tree fs" and w: "write_file fs p bytes = Some fs'"
  shows "tree fs'"
proof -
  from w have nd: "\<not> is_dir fs p" and pd: "is_dir fs (parent p)" and f: "fs' = fs(p \<mapsto> File bytes)"
    by (auto simp: write_file_def split: if_splits)
  from nd have n: "names p \<noteq> []"
    by (auto simp: is_dir_def node_at_def)
  have "is_dir fs' (parent q)" if q: "names q \<noteq> []" "fs' q \<noteq> None" for q
  proof (cases "q = p")
    case True
    with pd parent_neq [OF n] f show ?thesis
      by (auto simp: is_dir_def node_at_def)
  next
    case False
    with q t f have d: "is_dir fs (parent q)"
      by (simp add: tree_def)
    with nd have "parent q \<noteq> p"
      by auto
    with d f show ?thesis
      by (auto simp: is_dir_def node_at_def)
  qed
  then show ?thesis
    by (simp add: tree_def)
qed

lemma tree_convert:
  assumes "tree fs"
  shows "tree (snd (convert lib fs g fmt out))"
proof -
  from convert_state [of lib fs g fmt out] show ?thesis
  proof (elim disjE exE conjE)
    assume "snd (convert lib fs g fmt out) = fs"
    with assms show ?thesis by simp
  next
    fix p fs1
    assume "mkdir_parents fs (parent p) = Inr fs1" "snd (convert lib fs g fmt out) = fs1"
    with tree_mkdir_parents [OF assms] show ?thesis by simp
  next
    fix p fs1 bytes
    assume mk: "mkdir_parents fs (parent p) = Inr fs1"
      and w: "write_file fs1 p bytes = Some (snd (convert lib fs g fmt out))"
    from tree_write_file [OF tree_mkdir_parents [OF assms mk] w] show ?thesis .
  qed
qed

lemma write_file_keeps: "write_file fs p bytes = Some fs' \<Longrightarrow> fs q \<noteq> None \<Longrightarrow> fs' q \<noteq> None"
  by (auto simp: write_file_def split: if_splits)

lemma convert_keeps:
  assumes "fs q \<noteq> None"
  shows "snd (convert lib fs g fmt out) q \<noteq> None"
proof -
  have mk: "fs1 q \<noteq> None" if "mkdir_parents fs p = Inr fs1" for p fs1
    using mkdir_parents_adds_dir [OF that, of q] assms by auto
  from convert_state [of lib fs g fmt out] show ?thesis
  proof (elim disjE exE conjE)
    assume "snd (convert lib fs g fmt out) = fs"
    with assms show ?thesis by simp
  next
    fix p fs1
    assume "mkdir_parents fs (parent p) = Inr fs1" "snd (convert lib fs g fmt out) = fs1"
    with mk show ?thesis by simp
  next
    fix p fs1 bytes
    assume "mkdir_parents fs (parent p) = Inr fs1"
      "write_file fs1 p bytes = Some (snd (convert lib fs g fmt out))"
    with mk write_file_keeps show ?thesis by blast
  qed
qed

lemma batch_loop_invariant:
  assumes "tree fs" and "path_exists fs f"
  shows "tree (snd (snd (batch_loop lib fs xs fmt out n0)))
         \<and> path_exists (snd (snd (batch_loop lib fs xs fmt out n0))) f"
  using assms
proof (induction xs arbitrary: fs n0)
  case Nil
  then show ?case by simp
next
  case (Cons g xs)
  obtain r s1 where c: "convert lib fs g fmt out = (r, s1)"
    by (cases "convert lib fs g fmt out")
  from tree_convert [OF Cons.prems(1), of lib g fmt out] c have t: "tree s1"
    by simp
  have e: "path_exists s1 f"
  proof (cases "names f = []")
    case True
    then show ?thesis
      by (simp add: path_exists_def node_at_def)
  next
    case False
    with Cons.prems(2) have "fs f \<noteq> None"
      by (auto simp: path_exists_def node_at_def split: option.splits)
    from convert_keeps [of fs f lib g fmt out, OF this] c False show ?thesis
      by (auto simp: path_exists_def node_at_def split: option.splits)
  qed
  show ?case
  proof (cases r)
    case (Inl x)
    with c Cons.IH [OF t e, of n0] show ?thesis
      by (auto split: prod.splits)
  next
    case (Inr x)
    with c Cons.IH [OF t e, of "n0 + 1"] show ?thesis
      by (auto split: prod.splits)
  qed
qed

text \<open>
  C6, as the claim states it, fails: the failure of one file can affect the conversion of
  another. A save that fails has opened its output path for writing and leaves it
  emptied. Converting \<open>x.png\<close> and \<open>x.gif\<close> to \<open>jpg\<close>: the first call writes
  \<open>x.jpg\<close>; the second resolves to the same \<open>x.jpg\<close>, the encoder refuses its palette
  image, the failure is recorded, and \<open>x.jpg\<close>, the output of the first file, is left
  empty. With the existing file \<open>c.jpg\<close> as output location, converting \<open>x.gif\<close> and
  then \<open>c.jpg\<close> to \<open>png\<close>: alone, \<open>c.jpg\<close> converts; after the failed save of
  \<open>x.gif\<close>, which empties \<open>c.jpg\<close>, it cannot be opened and fails too.
\<close>

theorem failed_save_empties_other_file:
  "fst (snd (batch_loop example_lib example_fs [rel [''x.png''], rel [''x.gif'']] ''jpg'' None 0))
     = [(rel [''x.png''], Inr (rel [''x.jpg''])), (rel [''x.gif''], Inl ConversionFailed)]
   \<and> snd (snd (batch_loop example_lib example_fs [rel [''x.png'']] ''jpg'' None 0)) (rel [''x.jpg''])
       = Some (File ''.jpg RGB'')
   \<and> snd (snd (batch_loop example_lib example_fs [rel [''x.png''], rel [''x.gif'']] ''jpg'' None 0))
         (rel [''x.jpg''])
       = Some (File [])
   \<and> fst (snd (batch_loop example_lib example_fs [rel [''c.jpg'']] ''png'' (Some (rel [''c.jpg''])) 0))
       = [(rel [''c.jpg''], Inr (rel [''c.jpg'']))]
   \<and> fst (snd (batch_loop example_lib example_fs [rel [''x.gif''], rel [''c.jpg'']] ''png''
         (Some (rel [''c.jpg''])) 0))
       = [(rel [''x.gif''], Inl ConversionFailed), (rel [''c.jpg''], Inl ConversionFailed)]"
  by code_simp

text \<open>
  C6, amended. For every list of input files the loop records one outcome per file, in
  order (attempted is the length of the list), and the counter it returns is the number
  of successes recorded. The outcome recorded for a file is that of its own call of
  \<^verbatim>\<open>convert\<close> on the file system the files before it left, whether they failed or
  not: a failure is recorded and the loop goes on. A call, failed or not, changes its own
  output path at most: every other entry is as it was, and whatever else is new is a
  directory. When a file fails with an error raised before the image is saved (every
  error but a failed conversion, or a failed conversion of a file that cannot be opened),
  the output path is untouched as well; and when moreover the file system is a tree and
  the input files exist, as \<^verbatim>\<open>main\<close> has them, the records of the other files are
  exactly those of the batch without the failing file. A save that fails is not in this
  case: it leaves its output path emptied or partly written.
\<close>

theorem batch_loop_outcome:
  assumes "batch_loop lib fs files fmt out 0 = (n, lg, fs')"
  shows "length lg = length files
         \<and> map fst lg = files
         \<and> n = length (filter (\<lambda>r. \<not> isl (snd r)) lg)
         \<and> (\<forall>i < length files.
               snd (lg ! i)
                 = fst (convert lib (snd (snd (batch_loop lib fs (take i files) fmt out 0)))
                          (files ! i) fmt out))
         \<and> (\<forall>i < length files. \<forall>q.
               snd (snd (batch_loop lib fs (take (Suc i) files) fmt out 0)) q
                 = snd (snd (batch_loop lib fs (take i files) fmt out 0)) q
               \<or> (snd (snd (batch_loop lib fs (take i files) fmt out 0)) q = None
                   \<and> snd (snd (batch_loop lib fs (take (Suc i) files) fmt out 0)) q = Some Dir)
               \<or> resolve_output (snd (snd (batch_loop lib fs (take i files) fmt out 0)))
                    (files ! i) fmt out = Inr q)
         \<and> (\<forall>i < length files. \<forall>e.
               snd (lg ! i) = Inl e
               \<and> (e \<noteq> ConversionFailed
                   \<or> Image_open lib (snd (snd (batch_loop lib fs (take i files) fmt out 0))) (files ! i)
                       = None) \<longrightarrow>
               (\<forall>q. snd (snd (batch_loop lib fs (take (Suc i) files) fmt out 0)) q
                      = snd (snd (batch_loop lib fs (take i files) fmt out 0)) q
                    \<or> (snd (snd (batch_loop lib fs (take i files) fmt out 0)) q = None
                        \<and> snd (snd (batch_loop lib fs (take (Suc i) files) fmt out 0)) q = Some Dir)))
         \<and> (tree fs \<and> (\<forall>g \<in> set files. path_exists fs g \<and> CHR ''/'' \<notin> set (name g)) \<longrightarrow>
              (\<forall>i < length files. \<forall>e.
                 snd (lg ! i) = Inl e
                 \<and> (e \<noteq> ConversionFailed
                     \<or> Image_open lib (snd (snd (batch_loop lib fs (take i files) fmt out 0))) (files ! i)
                         = None) \<longrightarrow>
                 fst (snd (batch_loop lib fs (take i files @ drop (Suc i) files) fmt out 0))
                   = take i lg @ drop (Suc i) lg))"
proof -
  from batch_loop_log [OF assms] have a: "map fst lg = files"
    and c: "n = length (filter (\<lambda>r. \<not> isl (snd r)) lg)"
    by simp_all
  from a have l: "length lg = length files"
    by (metis length_map)
  have rec: "snd (lg ! i)
       = fst (convert lib (snd (snd (batch_loop lib fs (take i files) fmt out 0))) (files ! i) fmt out)"
    if i: "i < length files" for i
  proof -
    obtain n1 lg1 s1 where p: "batch_loop lib fs (take i files) fmt out 0 = (n1, lg1, s1)"
      by (cases "batch_loop lib fs (take i files) fmt out 0")
    obtain r s2 where cv: "convert lib s1 (files ! i) fmt out = (r, s2)"
      by (cases "convert lib s1 (files ! i) fmt out")
    obtain n2 lg2 s3 where q:
      "batch_loop lib s2 (drop (Suc i) files) fmt out (if isl r then n1 else n1 + 1) = (n2, lg2, s3)"
      by (cases "batch_loop lib s2 (drop (Suc i) files) fmt out (if isl r then n1 else n1 + 1)")
    from batch_loop_step [OF i, of lib fs fmt out] assms p cv q
    have lg: "lg = lg1 @ (files ! i, r) # lg2"
      by simp
    from batch_loop_log [OF p] i have "length lg1 = i"
      by (metis length_map length_take min.absorb2 less_imp_le)
    with lg have "lg ! i = (files ! i, r)"
      by (simp add: nth_append)
    with p cv show ?thesis
      by simp
  qed
  have own: "snd (snd (batch_loop lib fs (take (Suc i) files) fmt out 0)) q
                 = snd (snd (batch_loop lib fs (take i files) fmt out 0)) q
               \<or> (snd (snd (batch_loop lib fs (take i files) fmt out 0)) q = None
                   \<and> snd (snd (batch_loop lib fs (take (Suc i) files) fmt out 0)) q = Some Dir)
               \<or> resolve_output (snd (snd (batch_loop lib fs (take i files) fmt out 0)))
                    (files ! i) fmt out = Inr q"
    if i: "i < length files" for i q
  proof -
    obtain n1 lg1 s1 where p: "batch_loop lib fs (take i files) fmt out 0 = (n1, lg1, s1)"
      by (cases "batch_loop lib fs (take i files) fmt out 0")
    obtain r s2 where cv: "convert lib s1 (files ! i) fmt out = (r, s2)"
      by (cases "convert lib s1 (files ! i) fmt out")
    from convert_frame [of lib s1 "files ! i" fmt out q] batch_loop_prefix [OF i, of lib fs fmt out] p cv
    show ?thesis
      by simp
  qed
  have frame: "snd (snd (batch_loop lib fs (take (Suc i) files) fmt out 0)) q
                 = snd (snd (batch_loop lib fs (take i files) fmt out 0)) q
               \<or> (snd (snd (batch_loop lib fs (take i files) fmt out 0)) q = None
                   \<and> snd (snd (batch_loop lib fs (take (Suc i) files) fmt out 0)) q = Some Dir)"
    if i: "i < length files" and f: "snd (lg ! i) = Inl e"
      and pre: "e \<noteq> ConversionFailed
                 \<or> Image_open lib (snd (snd (batch_loop lib fs (take i files) fmt out 0))) (files ! i) = None"
    for i e q
  proof -
    obtain n1 lg1 s1 where p: "batch_loop lib fs (take i files) fmt out 0 = (n1, lg1, s1)"
      by (cases "batch_loop lib fs (take i files) fmt out 0")
    obtain r s2 where cv: "convert lib s1 (files ! i) fmt out = (r, s2)"
      by (cases "convert lib s1 (files ! i) fmt out")
    from rec [OF i] f p cv have "r = Inl e"
      by simp
    with cv have cv': "convert lib s1 (files ! i) fmt out = (Inl e, s2)"
      by simp
    from pre p have pre': "e \<noteq> ConversionFailed \<or> Image_open lib s1 (files ! i) = None"
      by simp
    from convert_failure_frame [OF cv' pre', of q] batch_loop_prefix [OF i, of lib fs fmt out] p cv
    show ?thesis
      by simp
  qed
  have B: "\<forall>i < length files.
               snd (lg ! i)
                 = fst (convert lib (snd (snd (batch_loop lib fs (take i files) fmt out 0)))
                          (files ! i) fmt out)"
    using rec by blast
  have O: "\<forall>i < length files. \<forall>q.
               snd (snd (batch_loop lib fs (take (Suc i) files) fmt out 0)) q
                 = snd (snd (batch_loop lib fs (take i files) fmt out 0)) q
               \<or> (snd (snd (batch_loop lib fs (take i files) fmt out 0)) q = None
                   \<and> snd (snd (batch_loop lib fs (take (Suc i) files) fmt out 0)) q = Some Dir)
               \<or> resolve_output (snd (snd (batch_loop lib fs (take i files) fmt out 0)))
                    (files ! i) fmt out = Inr q"
    using own by blast
  have D: "\<forall>i < length files. \<forall>e.
               snd (lg ! i) = Inl e
               \<and> (e \<noteq> ConversionFailed
                   \<or> Image_open lib (snd (snd (batch_loop lib fs (take i files) fmt out 0))) (files ! i)
                       = None) \<longrightarrow>
               (\<forall>q. snd (snd (batch_loop lib fs (take (Suc i) files) fmt out 0)) q
                      = snd (snd (batch_loop lib fs (take i files) fmt out 0)) q
                    \<or> (snd (snd (batch_loop lib fs (take i files) fmt out 0)) q = None
                        \<and> snd (snd (batch_loop lib fs (take (Suc i) files) fmt out 0)) q = Some Dir))"
    using frame by blast
  have ni: "fst (snd (batch_loop lib fs (take i files @ drop (Suc i) files) fmt out 0))
               = take i lg @ drop (Suc i) lg"
    if t: "tree fs"
      and g: "\<forall>g \<in> set files. path_exists fs g \<and> CHR ''/'' \<notin> set (name g)"
      and i: "i < length files" and f: "snd (lg ! i) = Inl e"
      and pre: "e \<noteq> ConversionFailed
                 \<or> Image_open lib (snd (snd (batch_loop lib fs (take i files) fmt out 0))) (files ! i) = None"
    for i e
  proof -
    obtain n1 lg1 s1 where p: "batch_loop lib fs (take i files) fmt out 0 = (n1, lg1, s1)"
      by (cases "batch_loop lib fs (take i files) fmt out 0")
    obtain r s2 where cv: "convert lib s1 (files ! i) fmt out = (r, s2)"
      by (cases "convert lib s1 (files ! i) fmt out")
    obtain n2 lg2 s3 where q:
      "batch_loop lib s2 (drop (Suc i) files) fmt out (if isl r then n1 else n1 + 1) = (n2, lg2, s3)"
      by (cases "batch_loop lib s2 (drop (Suc i) files) fmt out (if isl r then n1 else n1 + 1)")
    from batch_loop_step [OF i, of lib fs fmt out] assms p cv q
    have lg: "lg = lg1 @ (files ! i, r) # lg2"
      by simp
    from batch_loop_log [OF p] i have len: "length lg1 = i"
      by (metis length_map length_take min.absorb2 less_imp_le)
    from rec [OF i] f p cv have r: "r = Inl e"
      by simp
    from g i have ex: "path_exists fs (files ! i)" and nm: "CHR ''/'' \<notin> set (name (files ! i))"
      by simp_all
    from batch_loop_invariant [OF t ex, of lib "take i files" fmt out 0] p
    have t1: "tree s1" and ex1: "path_exists s1 (files ! i)"
      by simp_all
    from cv r have cv': "convert lib s1 (files ! i) fmt out = (Inl e, s2)"
      by simp
    from pre p have pre': "e \<noteq> ConversionFailed \<or> Image_open lib s1 (files ! i) = None"
      by simp
    note R = convert_failure_related [OF t1 ex1 nm cv' pre']
    from g have rest: "\<forall>g \<in> set (drop (Suc i) files). CHR ''/'' \<notin> set (name g)"
      by (meson in_set_dropD)
    from batch_loop_related [OF R rest, of lib fmt n1] q r
    have same: "fst (snd (batch_loop lib s1 (drop (Suc i) files) fmt out n1)) = lg2"
      by simp
    from batch_loop_append [of lib fs "take i files" "drop (Suc i) files" fmt out 0] p same
    have "fst (snd (batch_loop lib fs (take i files @ drop (Suc i) files) fmt out 0)) = lg1 @ lg2"
      by (simp split: prod.splits)
    with lg len show ?thesis
      by simp
  qed
  have E: "tree fs \<and> (\<forall>g \<in> set files. path_exists fs g \<and> CHR ''/'' \<notin> set (name g)) \<longrightarrow>
              (\<forall>i < length files. \<forall>e.
                 snd (lg ! i) = Inl e
                 \<and> (e \<noteq> ConversionFailed
                     \<or> Image_open lib (snd (snd (batch_loop lib fs (take i files) fmt out 0))) (files ! i)
                         = None) \<longrightarrow>
                 fst (snd (batch_loop lib fs (take i files @ drop (Suc i) files) fmt out 0))
                   = take i lg @ drop (Suc i) lg)"
    using ni by blast
  show ?thesis
    by (intro conjI) (rule l a c B O D E)+
qed


theorem batch_loop_outcome_witness:
  "fst (snd (batch_loop example_lib example_fs [rel [''a.png''], rel [''b.png''], rel [''c.jpg'']] ''gif'' None 0))
     = [(rel [''a.png''], Inr (rel [''a.gif''])),
        (rel [''b.png''], Inl ConversionFailed),
        (rel [''c.jpg''], Inr (rel [''c.gif'']))]
   \<and> fst (batch_loop example_lib example_fs [rel [''a.png''], rel [''b.png''], rel [''c.jpg'']] ''gif'' None 0) = 2
   \<and> length (fst (snd (batch_loop example_lib example_fs
         [rel [''a.png''], rel [''b.png''], rel [''c.jpg'']] ''gif'' None 0))) = 3
   \<and> snd (snd (batch_loop example_lib example_fs [rel [''a.png''], rel [''b.png'']] ''gif'' None 0))
         (rel [''a.gif''])
       = snd (snd (batch_loop example_lib example_fs [rel [''a.png'']] ''gif'' None 0)) (rel [''a.gif''])
   \<and> snd (snd (batch_loop example_lib example_fs [rel [''a.png''], rel [''b.png'']] ''gif'' None 0))
         (rel [''a.gif'']) = Some (File ''.gif RGBA'')
   \<and> tree example_fs
   \<and> list_all (\<lambda>g. path_exists example_fs g \<and> CHR ''/'' \<notin> set (name g))
         [rel [''a.png''], rel [''b.png''], rel [''c.jpg'']]
   \<and> fst (snd (batch_loop example_lib example_fs [rel [''a.png''], rel [''c.jpg'']] ''gif'' None 0))
       = [(rel [''a.png''], Inr (rel [''a.gif''])), (rel [''c.jpg''], Inr (rel [''c.gif'']))]"
proof -
  let ?files = "[rel [''a.png''], rel [''b.png''], rel [''c.jpg'']]"
  let ?b = "batch_loop example_lib example_fs ?files ''gif'' None 0"
  let ?s1 = "snd (snd (batch_loop example_lib example_fs [rel [''a.png'']] ''gif'' None 0))"
  let ?s2 = "snd (snd (batch_loop example_lib example_fs [rel [''a.png''], rel [''b.png'']] ''gif'' None 0))"
  have lg: "fst (snd ?b) = [(rel [''a.png''], Inr (rel [''a.gif''])),
        (rel [''b.png''], Inl ConversionFailed),
        (rel [''c.jpg''], Inr (rel [''c.gif'']))]"
    by code_simp
  note batch_loop.simps [simp del]
  have e: "?b = (fst ?b, fst (snd ?b), snd (snd ?b))"
    by simp
  note t = batch_loop_outcome [OF e]
  from t have len: "length (fst (snd ?b)) = length ?files"
    by (elim conjE)
  from t have cnt: "fst ?b = length (filter (\<lambda>r. \<not> isl (snd r)) (fst (snd ?b)))"
    by (elim conjE)
  from t have D: "\<forall>i < length ?files. \<forall>e.
               snd (fst (snd ?b) ! i) = Inl e
               \<and> (e \<noteq> ConversionFailed
                   \<or> Image_open example_lib (snd (snd (batch_loop example_lib example_fs (take i ?files) ''gif'' None 0))) (?files ! i)
                       = None) \<longrightarrow>
               (\<forall>q. snd (snd (batch_loop example_lib example_fs (take (Suc i) ?files) ''gif'' None 0)) q
                      = snd (snd (batch_loop example_lib example_fs (take i ?files) ''gif'' None 0)) q
                    \<or> (snd (snd (batch_loop example_lib example_fs (take i ?files) ''gif'' None 0)) q = None
                        \<and> snd (snd (batch_loop example_lib example_fs (take (Suc i) ?files) ''gif'' None 0)) q = Some Dir))"
    by (elim conjE)
  have s1: "?s1 (rel [''b.png'']) = Some (File ''junk'')"
    by code_simp
  then have op: "Image_open example_lib ?s1 (rel [''b.png'']) = None"
    by (simp add: Image_open_def node_at_def example_lib_def rel_def)
  have f1: "snd (fst (snd ?b) ! 1) = Inl ConversionFailed"
    by (subst lg) simp
  have t2: "take (Suc 1) ?files = [rel [''a.png''], rel [''b.png'']]" "take 1 ?files = [rel [''a.png'']]"
    "?files ! 1 = rel [''b.png'']"
    by simp_all
  from D [rule_format, of 1 ConversionFailed "rel [''a.gif'']"] f1 op
  have fr: "?s2 (rel [''a.gif'']) = ?s1 (rel [''a.gif''])
      \<or> (?s1 (rel [''a.gif'']) = None \<and> ?s2 (rel [''a.gif'']) = Some Dir)"
    unfolding t2 by simp
  have a1: "?s1 (rel [''a.gif'']) = Some (File ''.gif RGBA'')"
    by code_simp
  with fr have keep: "?s2 (rel [''a.gif'']) = ?s1 (rel [''a.gif''])"
    by simp
  from cnt [unfolded lg] have two: "fst ?b = 2"
    by simp
  from len have three: "length (fst (snd ?b)) = 3"
    by simp
  from keep a1 have a2: "?s2 (rel [''a.gif'']) = Some (File ''.gif RGBA'')"
    by simp
  have tr: "tree example_fs"
    by (auto simp: tree_def example_fs_def rel_def is_dir_def node_at_def parent_def split: if_splits)
  have ex': "list_all (\<lambda>g. path_exists example_fs g \<and> CHR ''/'' \<notin> set (name g)) ?files"
    by code_simp
  then have ex: "\<forall>g \<in> set ?files. path_exists example_fs g \<and> CHR ''/'' \<notin> set (name g)"
    unfolding list_all_iff .
  from t have E: "tree example_fs \<and> (\<forall>g \<in> set ?files. path_exists example_fs g \<and> CHR ''/'' \<notin> set (name g)) \<longrightarrow>
              (\<forall>i < length ?files. \<forall>e.
                 snd (fst (snd ?b) ! i) = Inl e
                 \<and> (e \<noteq> ConversionFailed
                     \<or> Image_open example_lib (snd (snd (batch_loop example_lib example_fs (take i ?files) ''gif'' None 0))) (?files ! i)
                         = None) \<longrightarrow>
                 fst (snd (batch_loop example_lib example_fs (take i ?files @ drop (Suc i) ?files) ''gif'' None 0))
                   = take i (fst (snd ?b)) @ drop (Suc i) (fst (snd ?b)))"
    by (elim conjE)
  have t3: "take 1 ?files @ drop (Suc 1) ?files = [rel [''a.png''], rel [''c.jpg'']]"
    by simp
  from E [rule_format, OF conjI [OF tr ex], of 1 ConversionFailed] f1 op
  have "fst (snd (batch_loop example_lib example_fs (take 1 ?files @ drop (Suc 1) ?files) ''gif'' None 0))
                   = take 1 (fst (snd ?b)) @ drop (Suc 1) (fst (snd ?b))"
    unfolding t2 by simp
  then have without: "fst (snd (batch_loop example_lib example_fs [rel [''a.png''], rel [''c.jpg'']] ''gif'' None 0))
       = [(rel [''a.png''], Inr (rel [''a.gif''])), (rel [''c.jpg''], Inr (rel [''c.gif'']))]"
    unfolding t3 lg by simp
  show ?thesis
    by (intro conjI) (rule lg two three keep a2 tr ex' without)+
qed

end
